theory Spec2Isabelle
  imports Complex_Main "HOL-Library.Word" "HOL-Library.AList" "HOL-Library.Sublist"
begin

unbundle bit_operations_syntax

section \<open>JavaScript \<open>Map\<close> objects\<close>

text \<open>
  A \<open>Map\<close> iterates in insertion order, and \<open>set\<close> on a key that is present keeps the
  key's position. It is modelled by an association list with distinct keys:
  \<^const>\<open>AList.update\<close> is \<open>Map.prototype.set\<close>, \<^const>\<open>AList.delete\<close> is
  \<open>Map.prototype.delete\<close>, \<^const>\<open>map_of\<close> is \<open>get\<close> (\<open>None\<close> for \<open>undefined\<close>) and the
  length of the list is \<open>size\<close>.
\<close>

type_synonym ('k, 'v) jsmap = "('k \<times> 'v) list"

definition map_has :: "('k, 'v) jsmap \<Rightarrow> 'k \<Rightarrow> bool" where
  "map_has m k = (map_of m k \<noteq> None)"

section \<open>Integer conversions of JavaScript\<close>

text \<open>
  \<open>ToInt32\<close>, the conversion behind \<open>x | 0\<close>, \<open>x << n\<close> and \<open>x >> n\<close>, on an exact
  integer: wrap into \<open>[-2^31, 2^31)\<close>.
\<close>

definition toInt32 :: "int \<Rightarrow> int" where
  "toInt32 x = (x + 2 ^ 31) mod 2 ^ 32 - 2 ^ 31"

text \<open>
  The sampling hashes all use the step \<open>hash = ((hash << 5) - hash) + x; hash |= 0\<close>.
\<close>

definition hashStep :: "int \<Rightarrow> int \<Rightarrow> int" where
  "hashStep hash x = toInt32 (toInt32 (toInt32 hash * 32) - hash + x)"

text \<open>Decimal rendering of integers, as template literals and \<open>String(n)\<close> produce it.\<close>

definition digitChar :: "nat \<Rightarrow> char" where
  "digitChar d = ''0123456789'' ! d"

fun showNat :: "nat \<Rightarrow> string" where
  "showNat n = (if n < 10 then [digitChar n] else showNat (n div 10) @ [digitChar (n mod 10)])"

definition showInt :: "int \<Rightarrow> string" where
  "showInt i = (if i < 0 then CHR ''-'' # showNat (nat (- i)) else showNat (nat i))"

text \<open>\<open>Number.prototype.toString(36)\<close> on an integer.\<close>

definition digit36 :: "nat \<Rightarrow> char" where
  "digit36 d = ''0123456789abcdefghijklmnopqrstuvwxyz'' ! d"

fun showNat36 :: "nat \<Rightarrow> string" where
  "showNat36 n = (if n < 36 then [digit36 n] else showNat36 (n div 36) @ [digit36 (n mod 36)])"

definition toString36 :: "int \<Rightarrow> string" where
  "toString36 i = (if i < 0 then CHR ''-'' # showNat36 (nat (- i)) else showNat36 (nat i))"

text \<open>\<open>Math.round\<close> on a finite number rounds half up: \<open>floor (x + 0.5)\<close>.\<close>

definition mathRound :: "real \<Rightarrow> int" where
  "mathRound x = \<lfloor>x + 1 / 2\<rfloor>"

section \<open>JavaScript numbers with their special values\<close>

text \<open>
  The colour-grading pass and the Gaussian filter compute with doubles that can become
  \<open>NaN\<close> or infinite (a division by zero, a value read past the end of a buffer, a
  setting that is not a number). A number is therefore \<open>NaN\<close>, an infinity, or a finite
  real; rounding and overflow of finite doubles are not modelled, and the sign of zero is
  ignored.
\<close>

datatype jsnum = NaN | NegInf | Fin real | PosInf

fun jneg :: "jsnum \<Rightarrow> jsnum" where
  "jneg NaN = NaN"
| "jneg NegInf = PosInf"
| "jneg (Fin a) = Fin (- a)"
| "jneg PosInf = NegInf"

fun jadd :: "jsnum \<Rightarrow> jsnum \<Rightarrow> jsnum" where
  "jadd (Fin a) (Fin b) = Fin (a + b)"
| "jadd NaN y = NaN"
| "jadd x NaN = NaN"
| "jadd PosInf NegInf = NaN"
| "jadd NegInf PosInf = NaN"
| "jadd PosInf y = PosInf"
| "jadd NegInf y = NegInf"
| "jadd (Fin a) y = y"

definition jsub :: "jsnum \<Rightarrow> jsnum \<Rightarrow> jsnum" where
  "jsub x y = jadd x (jneg y)"

text \<open>The sign of a number that is not \<open>NaN\<close>: \<open>-1\<close>, \<open>0\<close> or \<open>1\<close>.\<close>

fun jsign :: "jsnum \<Rightarrow> int" where
  "jsign NaN = 0"
| "jsign NegInf = - 1"
| "jsign (Fin a) = (if a < 0 then - 1 else if a = 0 then 0 else 1)"
| "jsign PosInf = 1"

definition infOfSign :: "int \<Rightarrow> jsnum" where
  "infOfSign s = (if s = 0 then NaN else if s < 0 then NegInf else PosInf)"

fun jmul :: "jsnum \<Rightarrow> jsnum \<Rightarrow> jsnum" where
  "jmul (Fin a) (Fin b) = Fin (a * b)"
| "jmul NaN y = NaN"
| "jmul x NaN = NaN"
| "jmul x y = infOfSign (jsign x * jsign y)"

fun jdiv :: "jsnum \<Rightarrow> jsnum \<Rightarrow> jsnum" where
  "jdiv (Fin a) (Fin b) = (if b = 0 then infOfSign (jsign (Fin a)) else Fin (a / b))"
| "jdiv NaN y = NaN"
| "jdiv x NaN = NaN"
| "jdiv (Fin a) y = Fin 0"
| "jdiv x (Fin b) = infOfSign (jsign x * (if b < 0 then - 1 else 1))"
| "jdiv x y = NaN"

text \<open>Comparisons are false when an operand is \<open>NaN\<close>.\<close>

fun jlt :: "jsnum \<Rightarrow> jsnum \<Rightarrow> bool" where
  "jlt (Fin a) (Fin b) = (a < b)"
| "jlt NaN y = False"
| "jlt x NaN = False"
| "jlt NegInf y = (y \<noteq> NegInf)"
| "jlt x PosInf = (x \<noteq> PosInf)"
| "jlt x y = False"

definition jgt :: "jsnum \<Rightarrow> jsnum \<Rightarrow> bool" where
  "jgt x y = jlt y x"

text \<open>\<open>x !== y\<close> on numbers: \<open>NaN\<close> differs from everything, itself included.\<close>

definition jne :: "jsnum \<Rightarrow> jsnum \<Rightarrow> bool" where
  "jne x y = (x = NaN \<or> y = NaN \<or> x \<noteq> y)"

definition jtruthy :: "jsnum \<Rightarrow> bool" where
  "jtruthy x = (x \<noteq> NaN \<and> x \<noteq> Fin 0)"

text \<open>\<open>Math.min\<close> and \<open>Math.max\<close> of two numbers.\<close>

definition jmin :: "jsnum \<Rightarrow> jsnum \<Rightarrow> jsnum" where
  "jmin x y = (if x = NaN \<or> y = NaN then NaN else if jlt y x then y else x)"

definition jmax :: "jsnum \<Rightarrow> jsnum \<Rightarrow> jsnum" where
  "jmax x y = (if x = NaN \<or> y = NaN then NaN else if jlt x y then y else x)"

text \<open>\<open>Math.pow(2, x)\<close> and \<open>Math.round(x)\<close>.\<close>

fun pow2 :: "jsnum \<Rightarrow> jsnum" where
  "pow2 NaN = NaN"
| "pow2 NegInf = Fin 0"
| "pow2 (Fin a) = Fin (2 powr a)"
| "pow2 PosInf = PosInf"

fun jround :: "jsnum \<Rightarrow> jsnum" where
  "jround (Fin a) = Fin (real_of_int (mathRound a))"
| "jround x = x"

text \<open>The result of \<open>parseInt\<close>: an integer, or \<open>NaN\<close> (\<open>None\<close>).\<close>

definition fromParse :: "int option \<Rightarrow> jsnum" where
  "fromParse p = (case p of None \<Rightarrow> NaN | Some i \<Rightarrow> Fin (real_of_int i))"

text \<open>\<open>n >> 1\<close> on the result of \<open>parseInt\<close>: \<open>NaN\<close> converts to \<open>0\<close>.\<close>

definition shiftRight1 :: "int option \<Rightarrow> int" where
  "shiftRight1 p = (case p of None \<Rightarrow> 0 | Some i \<Rightarrow> toInt32 i div 2)"

text \<open>
  A store into a \<open>Uint8ClampedArray\<close>: \<open>NaN\<close> becomes \<open>0\<close>, the value is clamped to
  \<open>[0, 255]\<close> and rounded to the nearest integer, a tie going to the even one.
\<close>

definition roundHalfEven :: "real \<Rightarrow> int" where
  "roundHalfEven x =
     (let f = \<lfloor>x\<rfloor>
      in if real_of_int f + 1 / 2 < x then f + 1
         else if x < real_of_int f + 1 / 2 then f
         else if even f then f else f + 1)"

fun toUint8Clamp :: "jsnum \<Rightarrow> 8 word" where
  "toUint8Clamp NaN = 0"
| "toUint8Clamp NegInf = 0"
| "toUint8Clamp PosInf = 255"
| "toUint8Clamp (Fin a) =
     (if a \<le> 0 then 0 else if 255 \<le> a then 255 else word_of_int (roundHalfEven a))"

text \<open>
  A read from a byte buffer as a number in arithmetic: past the end the value is
  \<open>undefined\<close>, which arithmetic turns into \<open>NaN\<close>.
\<close>

definition readNum :: "8 word list \<Rightarrow> nat \<Rightarrow> jsnum" where
  "readNum data j = (if j < length data then Fin (real (unat (data ! j))) else NaN)"


section \<open>Colour-range matching (color replace module)\<close>

text \<open>
  JavaScript numbers are modelled by \<^typ>\<open>int\<close> where the code only ever holds integers
  (channel bytes, slider values) and by \<^typ>\<open>real\<close> elsewhere; rounding of IEEE doubles
  is not modelled. Where a double would be \<open>NaN\<close> or infinite (a division by zero), the
  branch the JavaScript takes is written out.
\<close>

datatype rgb = Rgb (rgb_r: int) (rgb_g: int) (rgb_b: int)

text \<open>The vectors that \<open>findColorsInRange\<close> precomputes before its pixel loop.\<close>

definition startToEndOf :: "rgb \<Rightarrow> rgb \<Rightarrow> rgb" where
  "startToEndOf startRgb endRgb =
     Rgb (rgb_r endRgb - rgb_r startRgb) (rgb_g endRgb - rgb_g startRgb)
         (rgb_b endRgb - rgb_b startRgb)"

definition lengthSquaredOf :: "rgb \<Rightarrow> int" where
  "lengthSquaredOf v = rgb_r v * rgb_r v + rgb_g v * rgb_g v + rgb_b v * rgb_b v"

text \<open>
  \<open>isColorInRangeOptimized\<close>. With \<open>isSameColor\<close> false and a zero squared length the
  JavaScript quotient is \<open>NaN\<close> or infinite, both range tests fail and the function
  returns false; that branch is explicit here because \<open>x / 0 = 0\<close> in HOL.
\<close>

definition isColorInRangeOptimized ::
  "rgb \<Rightarrow> rgb \<Rightarrow> rgb \<Rightarrow> rgb \<Rightarrow> int \<Rightarrow> bool \<Rightarrow> real \<Rightarrow> bool" where
  "isColorInRangeOptimized pixelRgb startRgb endRgb startToEnd startToEndLengthSquared
       isSameColor tolerance =
     (if isSameColor then
        (let distance = sqrt (real_of_int ((rgb_r pixelRgb - rgb_r startRgb)\<^sup>2
                                + (rgb_g pixelRgb - rgb_g startRgb)\<^sup>2
                                + (rgb_b pixelRgb - rgb_b startRgb)\<^sup>2))
         in distance \<le> tolerance)
      else
        (let pixelToStart = Rgb (rgb_r pixelRgb - rgb_r startRgb)
                                (rgb_g pixelRgb - rgb_g startRgb)
                                (rgb_b pixelRgb - rgb_b startRgb);
             dotProduct = rgb_r pixelToStart * rgb_r startToEnd
                        + rgb_g pixelToStart * rgb_g startToEnd
                        + rgb_b pixelToStart * rgb_b startToEnd
         in if startToEndLengthSquared = 0 then False
            else
              (let projectionRatio = real_of_int dotProduct / real_of_int startToEndLengthSquared
               in if projectionRatio \<ge> 0 \<and> projectionRatio \<le> 1 then
                    (let pr = real_of_int (rgb_r startRgb)
                                + projectionRatio * real_of_int (rgb_r startToEnd);
                         pg = real_of_int (rgb_g startRgb)
                                + projectionRatio * real_of_int (rgb_g startToEnd);
                         pb = real_of_int (rgb_b startRgb)
                                + projectionRatio * real_of_int (rgb_b startToEnd);
                         distance = sqrt ((real_of_int (rgb_r pixelRgb) - pr)\<^sup>2
                                        + (real_of_int (rgb_g pixelRgb) - pg)\<^sup>2
                                        + (real_of_int (rgb_b pixelRgb) - pb)\<^sup>2);
                         rangeLength = sqrt (real_of_int startToEndLengthSquared);
                         dynamicTolerance =
                           max (tolerance * 0.5) (min (tolerance * 1.5) (rangeLength * 0.2))
                     in distance \<le> dynamicTolerance)
                  else False)))"

text \<open>The call exactly as the pixel loop of \<open>findColorsInRange\<close> makes it.\<close>

definition pixelInRange :: "rgb \<Rightarrow> rgb \<Rightarrow> rgb \<Rightarrow> real \<Rightarrow> bool" where
  "pixelInRange pixelRgb startRgb endRgb tolerance =
     (let startToEnd = startToEndOf startRgb endRgb;
          startToEndLengthSquared = lengthSquaredOf startToEnd;
          isSameColor = (startToEndLengthSquared = 0)
      in isColorInRangeOptimized pixelRgb startRgb endRgb startToEnd startToEndLengthSquared
           isSameColor tolerance)"

subsection \<open>The matching rule in the words of the specification\<close>

text \<open>
  These follow the specification's description, not the code: the Euclidean distance of two
  colours, the scalar projection \<open>t\<close> of a pixel onto the start-end segment, the
  perpendicular distance to the projected point.
\<close>

definition spec_euclid :: "rgb \<Rightarrow> rgb \<Rightarrow> real" where
  "spec_euclid p q =
     sqrt ((real_of_int (rgb_r p) - real_of_int (rgb_r q))\<^sup>2
         + (real_of_int (rgb_g p) - real_of_int (rgb_g q))\<^sup>2
         + (real_of_int (rgb_b p) - real_of_int (rgb_b q))\<^sup>2)"




section \<open>The result cache of \<open>PerformanceOptimizer\<close>\<close>

text \<open>
  \<open>this.cache\<close> holds three caches selected by a type name and one shared map of
  timestamps whose keys are \<open>type_key\<close>. \<open>Date.now()\<close> is passed in as \<open>now\<close>.
\<close>

datatype cacheType = ImageData | Processed | Operations

fun typeName :: "cacheType \<Rightarrow> string" where
  "typeName ImageData = ''imageData''"
| "typeName Processed = ''processed''"
| "typeName Operations = ''operations''"

record 'v perfOpt =
  cache_imageData :: "(string, 'v) jsmap"
  cache_processed :: "(string, 'v) jsmap"
  cache_operations :: "(string, 'v) jsmap"
  cache_timestamps :: "(string, int) jsmap"
  cfg_maxSize :: int
  cfg_ttl :: int
  cfg_enabled :: bool
  stat_cachedOperations :: nat

definition newPerformanceOptimizer :: "'v perfOpt" where
  "newPerformanceOptimizer =
     \<lparr> cache_imageData = [], cache_processed = [], cache_operations = [],
       cache_timestamps = [],
       cfg_maxSize = 5, cfg_ttl = 5 * 60 * 1000, cfg_enabled = True,
       stat_cachedOperations = 0 \<rparr>"

text \<open>\<open>configureCache\<close>: the fields present in \<open>settings\<close> replace the configured ones.\<close>

definition configureCache ::
  "int option \<Rightarrow> int option \<Rightarrow> bool option \<Rightarrow> 'v perfOpt \<Rightarrow> 'v perfOpt" where
  "configureCache maxSize ttl enabled s =
     s \<lparr> cfg_maxSize := (case maxSize of None \<Rightarrow> cfg_maxSize s | Some m \<Rightarrow> m),
         cfg_ttl := (case ttl of None \<Rightarrow> cfg_ttl s | Some t \<Rightarrow> t),
         cfg_enabled := (case enabled of None \<Rightarrow> cfg_enabled s | Some e \<Rightarrow> e) \<rparr>"

fun cacheOf :: "cacheType \<Rightarrow> 'v perfOpt \<Rightarrow> (string, 'v) jsmap" where
  "cacheOf ImageData s = cache_imageData s"
| "cacheOf Processed s = cache_processed s"
| "cacheOf Operations s = cache_operations s"

fun cacheUpd ::
  "cacheType \<Rightarrow> ((string, 'v) jsmap \<Rightarrow> (string, 'v) jsmap) \<Rightarrow> 'v perfOpt \<Rightarrow> 'v perfOpt" where
  "cacheUpd ImageData f s = s \<lparr> cache_imageData := f (cache_imageData s) \<rparr>"
| "cacheUpd Processed f s = s \<lparr> cache_processed := f (cache_processed s) \<rparr>"
| "cacheUpd Operations f s = s \<lparr> cache_operations := f (cache_operations s) \<rparr>"

definition timestampKey :: "cacheType \<Rightarrow> string \<Rightarrow> string" where
  "timestampKey ty key = typeName ty @ ''_'' @ key"

text \<open>
  \<open>getOldestCacheKey\<close>: one pass over the timestamps in insertion order, keeping the first
  entry of the type with the smallest timestamp. \<open>oldestTime\<close> starts at \<open>Infinity\<close>
  (\<open>None\<close>). Under the \<open>startsWith\<close> test, \<open>key.replace(type_, '')\<close> removes the prefix.
\<close>

definition oldestStep ::
  "cacheType \<Rightarrow> string \<times> int \<Rightarrow> string option \<times> int option \<Rightarrow> string option \<times> int option"
  where
  "oldestStep ty entry acc =
     (let key = fst entry; timestamp = snd entry; oldestTime = snd acc
      in if prefix (typeName ty @ ''_'') key then
           (if (case oldestTime of None \<Rightarrow> True | Some t \<Rightarrow> timestamp < t)
            then (Some (drop (length (typeName ty @ ''_'')) key), Some timestamp)
            else acc)
         else acc)"

definition getOldestCacheKey :: "cacheType \<Rightarrow> 'v perfOpt \<Rightarrow> string option" where
  "getOldestCacheKey ty s = fst (fold (oldestStep ty) (cache_timestamps s) (None, None))"

text \<open>
  \<open>setCache\<close>. A key is a string; \<open>!key\<close> holds for the empty string (and for \<open>null\<close>,
  which \<open>generateCacheKey\<close> returns for data without dimensions and which is treated
  alike). \<open>if (oldestKey)\<close> likewise fails for \<open>null\<close> and for the empty string.
\<close>

definition setCache ::
  "string \<Rightarrow> 'v \<Rightarrow> cacheType \<Rightarrow> int \<Rightarrow> 'v perfOpt \<Rightarrow> 'v perfOpt" where
  "setCache key val ty now s =
     (if \<not> cfg_enabled s \<or> key = [] then s
      else
        (let s1 =
               (if int (length (cacheOf ty s)) \<ge> cfg_maxSize s then
                  (case getOldestCacheKey ty s of
                     None \<Rightarrow> s
                   | Some oldestKey \<Rightarrow>
                       if oldestKey \<noteq> [] then
                         (cacheUpd ty (AList.delete oldestKey) s)
                           \<lparr> cache_timestamps :=
                               AList.delete (timestampKey ty oldestKey) (cache_timestamps s) \<rparr>
                       else s)
                else s);
             s2 = cacheUpd ty (AList.update key val) s1
         in s2 \<lparr> cache_timestamps :=
                   AList.update (timestampKey ty key) now (cache_timestamps s2) \<rparr>))"

text \<open>
  \<open>getCache\<close> returns the value (\<open>None\<close> for \<open>null\<close>) and the new state. An entry older
  than the time to live is removed on the read; a live entry has its timestamp refreshed.
  \<open>if (timestamp && \<dots>)\<close> fails for a missing and for a zero timestamp.
\<close>

definition getCache ::
  "string \<Rightarrow> cacheType \<Rightarrow> int \<Rightarrow> 'v perfOpt \<Rightarrow> 'v option \<times> 'v perfOpt" where
  "getCache key ty now s =
     (if \<not> cfg_enabled s \<or> key = [] \<or> \<not> map_has (cacheOf ty s) key then (None, s)
      else
        (let timestampKey' = timestampKey ty key;
             timestamp = map_of (cache_timestamps s) timestampKey'
         in if (case timestamp of None \<Rightarrow> False
                | Some t \<Rightarrow> t \<noteq> 0 \<and> now - t > cfg_ttl s)
            then (None,
                  (cacheUpd ty (AList.delete key) s)
                    \<lparr> cache_timestamps := AList.delete timestampKey' (cache_timestamps s) \<rparr>)
            else (map_of (cacheOf ty s) key,
                  s \<lparr> cache_timestamps := AList.update timestampKey' now (cache_timestamps s),
                      stat_cachedOperations := stat_cachedOperations s + 1 \<rparr>)))"

text \<open>\<open>clearCache\<close>, for one type or (\<open>None\<close>) for all.\<close>

definition clearCache :: "cacheType option \<Rightarrow> 'v perfOpt \<Rightarrow> 'v perfOpt" where
  "clearCache ty s =
     (case ty of
        Some t \<Rightarrow>
          (cacheUpd t (\<lambda>_. []) s)
            \<lparr> cache_timestamps :=
                filter (\<lambda>entry. \<not> prefix (typeName t @ ''_'') (fst entry)) (cache_timestamps s) \<rparr>
      | None \<Rightarrow>
          s \<lparr> cache_imageData := [], cache_processed := [], cache_operations := [],
              cache_timestamps := [] \<rparr>)"

text \<open>
  The timestamps of a type mirror its cache: the keys are distinct and non-empty, and
  \<open>type_key\<close> has a timestamp exactly when \<open>key\<close> is cached. Every state reached from
  \<^const>\<open>newPerformanceOptimizer\<close> by the operations above is consistent.
\<close>

definition keysMirror :: "cacheType \<Rightarrow> string set \<Rightarrow> string set \<Rightarrow> bool" where
  "keysMirror ty keys stampKeys \<longleftrightarrow>
     [] \<notin> keys \<and>
     (\<forall>tk \<in> stampKeys.
        prefix (typeName ty @ ''_'') tk \<longrightarrow> drop (length (typeName ty @ ''_'')) tk \<in> keys) \<and>
     (\<forall>k \<in> keys. timestampKey ty k \<in> stampKeys)"

definition cacheConsistent :: "cacheType \<Rightarrow> 'v perfOpt \<Rightarrow> bool" where
  "cacheConsistent ty s \<longleftrightarrow>
     distinct (map fst (cacheOf ty s)) \<and>
     distinct (map fst (cache_timestamps s)) \<and>
     keysMirror ty (fst ` set (cacheOf ty s)) (fst ` set (cache_timestamps s))"

definition timestampOf :: "cacheType \<Rightarrow> 'v perfOpt \<Rightarrow> string \<Rightarrow> int" where
  "timestampOf ty s k = the (map_of (cache_timestamps s) (timestampKey ty k))"

section \<open>The task scheduler \<open>ImageProcessor\<close> and the worker's message handler\<close>

subsection \<open>Messages\<close>

text \<open>
  A message from the worker is an object; a field that is absent reads as \<open>undefined\<close>
  (\<open>None\<close>). The handler tests fields for truthiness: a task id is truthy when it is a
  non-zero number, an error when it is a non-empty string, \<open>complete\<close> when it is \<open>true\<close>.
\<close>

record 'r workerMessage =
  m_taskId :: "nat option"
  m_success :: "bool option"
  m_result :: "'r option"
  m_error :: "string option"
  m_progress :: "nat option"
  m_complete :: "bool option"

definition truthyId :: "nat option \<Rightarrow> bool" where
  "truthyId i = (case i of None \<Rightarrow> False | Some n \<Rightarrow> n \<noteq> 0)"

definition truthyString :: "string option \<Rightarrow> bool" where
  "truthyString e = (case e of None \<Rightarrow> False | Some str \<Rightarrow> str \<noteq> [])"

definition truthyBool :: "bool option \<Rightarrow> bool" where
  "truthyBool c = (case c of None \<Rightarrow> False | Some v \<Rightarrow> v)"

text \<open>
  The object handed to a callback. \<open>handleWorkerMessage\<close> writes \<open>success: Boolean\<close>, which
  stores the global function \<open>Boolean\<close>, not the message's \<open>success\<close> value; the cached
  path of \<open>processNextTask\<close> writes \<open>success: true\<close>.
\<close>

datatype successField = SuccessValue bool | BooleanFunction

fun truthySuccess :: "successField \<Rightarrow> bool" where
  "truthySuccess (SuccessValue v) = v"
| "truthySuccess BooleanFunction = True"

record 'r response =
  r_success :: successField
  r_error :: "string option"
  r_progress :: "nat option"
  r_partialResult :: "'r option"
  r_result :: "'r option"

subsection \<open>The worker's \<open>self.onmessage\<close>\<close>

text \<open>
  Every message the worker posts lacks a \<open>taskId\<close>. The failure message comes from the
  \<open>default\<close> branch of the switch and from the \<open>catch\<close> block; a filter that finishes
  posts \<open>{success: true, task, result}\<close>.
\<close>

definition failureMessage :: "string \<Rightarrow> 'r workerMessage" where
  "failureMessage err =
     \<lparr> m_taskId = None, m_success = Some False, m_result = None, m_error = Some err,
       m_progress = None, m_complete = None \<rparr>"

definition resultMessage :: "'r \<Rightarrow> 'r workerMessage" where
  "resultMessage res =
     \<lparr> m_taskId = None, m_success = Some True, m_result = Some res, m_error = None,
       m_progress = None, m_complete = None \<rparr>"

definition knownTasks :: "string list" where
  "knownTasks = [''processImage'', ''applyMedianFilter'', ''applyGaussianFilter'',
                 ''computeHistogram'', ''applyColorAdjustments'']"

text \<open>
  \<open>run task\<close> stands for the body of the function the switch calls on the task's data:
  \<open>Inl msg\<close> when it throws an error with that message, \<open>Inr msgs\<close> for the messages
  it posts.
\<close>

definition workerOnMessage ::
  "(string \<Rightarrow> string + 'r workerMessage list) \<Rightarrow> string \<Rightarrow> 'r workerMessage list" where
  "workerOnMessage run task =
     (if task \<in> set knownTasks then
        (case run task of Inl err \<Rightarrow> [failureMessage err] | Inr msgs \<Rightarrow> msgs)
      else [failureMessage (''Unknown task: '' @ task)])"

subsection \<open>Scheduler state\<close>

text \<open>
  A callback is a closure. The closures that \<open>applyMedianFilter\<close>, \<open>applyGaussianFilter\<close>,
  \<open>computeHistogram\<close> and \<open>applyColorAdjustments\<close> register settle a promise:
  \<open>if (response.success) resolve(response.result) else reject(new Error(response.error))\<close>.
\<close>

datatype callback = PromiseCallback nat | ExternalCallback nat

datatype 'r settlement = Resolved "'r option" | Rejected "string option"

fun promiseSettlement :: "'r response \<Rightarrow> 'r settlement" where
  "promiseSettlement resp =
     (if truthySuccess (r_success resp) then Resolved (r_result resp)
      else Rejected (r_error resp))"

record 'p taskData =
  td_imageData :: "8 word list option"
  td_width :: nat
  td_height :: nat
  td_params :: 'p

record 'p task =
  t_taskId :: nat
  t_taskType :: string
  t_data :: "'p taskData"
  t_callback :: callback

text \<open>
  Besides the fields of the class, the state records what the scheduler did: the
  callbacks it invoked, the messages it posted to the worker, and the timers it set
  for results found in the cache.
\<close>

record ('p, 'r) imageProcessor =
  taskQueue :: "'p task list"
  isProcessing :: bool
  resultCache :: "(string, 'r) jsmap"
  callbacks :: "(nat, callback) jsmap"
  taskIdCounter :: nat
  invoked :: "(callback \<times> 'r response) list"
  posted :: "(string \<times> 'p taskData \<times> nat) list"
  timers :: "('p task \<times> 'r) list"

definition newImageProcessor :: "('p, 'r) imageProcessor" where
  "newImageProcessor =
     \<lparr> taskQueue = [], isProcessing = False, resultCache = [], callbacks = [],
       taskIdCounter = 0, invoked = [], posted = [], timers = [] \<rparr>"

text \<open>\<open>generateCacheKey\<close> of the scheduler: a key only for histogram tasks with data.\<close>

definition schedulerCacheKey :: "string \<Rightarrow> 'p taskData \<Rightarrow> string option" where
  "schedulerCacheKey taskType d =
     (if taskType = ''computeHistogram'' then
        (case td_imageData d of
           None \<Rightarrow> None
         | Some imageData \<Rightarrow>
             Some (taskType @ ''_'' @
                   showInt (fold (\<lambda>k hash. hashStep hash (uint (imageData ! (4 * k))))
                              [0 ..< (min 1000 (length imageData) + 3) div 4] 0)))
      else None)"

definition processNextTask :: "('p, 'r) imageProcessor \<Rightarrow> ('p, 'r) imageProcessor" where
  "processNextTask s =
     (case taskQueue s of
        [] \<Rightarrow> s
      | t # rest \<Rightarrow>
          (let s1 = s \<lparr> taskQueue := rest \<rparr>;
               cacheKey = schedulerCacheKey (t_taskType t) (t_data t);
               cached = (case cacheKey of None \<Rightarrow> None | Some k \<Rightarrow> map_of (resultCache s1) k)
           in if t_taskType t \<noteq> ''processImage'' \<and> cached \<noteq> None then
                s1 \<lparr> timers := timers s1 @ [(t, the cached)] \<rparr>
              else
                s1 \<lparr> isProcessing := True,
                     posted := posted s1 @ [(t_taskType t, t_data t, t_taskId t)] \<rparr>))"

text \<open>The timer body set for a cached result.\<close>

definition fireTimer :: "('p, 'r) imageProcessor \<Rightarrow> ('p, 'r) imageProcessor" where
  "fireTimer s =
     (case timers s of
        [] \<Rightarrow> s
      | (t, cachedResult) # rest \<Rightarrow>
          processNextTask
            (s \<lparr> timers := rest,
                 invoked := invoked s @
                   [(t_callback t,
                     \<lparr> r_success = SuccessValue True, r_error = None, r_progress = None,
                       r_partialResult = None, r_result = Some cachedResult \<rparr>)],
                 callbacks := AList.delete (t_taskId t) (callbacks s) \<rparr>))"

definition addTask ::
  "string \<Rightarrow> 'p taskData \<Rightarrow> callback \<Rightarrow> ('p, 'r) imageProcessor
     \<Rightarrow> nat \<times> ('p, 'r) imageProcessor" where
  "addTask taskType d callback s =
     (let taskId = taskIdCounter s + 1;
          s1 = s \<lparr> taskIdCounter := taskId,
                   taskQueue := taskQueue s @
                     [\<lparr> t_taskId = taskId, t_taskType = taskType, t_data = d,
                        t_callback = callback \<rparr>],
                   callbacks := AList.update taskId callback (callbacks s) \<rparr>
      in (taskId, if \<not> isProcessing s1 then processNextTask s1 else s1))"

definition handleWorkerMessage ::
  "'r workerMessage \<Rightarrow> ('p, 'r) imageProcessor \<Rightarrow> ('p, 'r) imageProcessor" where
  "handleWorkerMessage msg s =
     (let s1 =
            (case m_taskId msg of
               None \<Rightarrow> s
             | Some taskId \<Rightarrow>
                 (case map_of (callbacks s) taskId of
                    None \<Rightarrow> s
                  | Some callback \<Rightarrow>
                      if taskId = 0 then s
                      else if truthyString (m_error msg) then
                        s \<lparr> invoked := invoked s @
                               [(callback,
                                 \<lparr> r_success = BooleanFunction, r_error = m_error msg,
                                   r_progress = None, r_partialResult = None,
                                   r_result = None \<rparr>)],
                             callbacks := AList.delete taskId (callbacks s) \<rparr>
                      else if m_progress msg \<noteq> None then
                        s \<lparr> invoked := invoked s @
                               [(callback,
                                 \<lparr> r_success = BooleanFunction, r_error = None,
                                   r_progress = m_progress msg,
                                   r_partialResult = m_result msg, r_result = None \<rparr>)] \<rparr>
                      else if truthyBool (m_complete msg) then
                        s \<lparr> invoked := invoked s @
                               [(callback,
                                 \<lparr> r_success = BooleanFunction, r_error = None,
                                   r_progress = None, r_partialResult = None,
                                   r_result = m_result msg \<rparr>)],
                             callbacks := AList.delete taskId (callbacks s) \<rparr>
                      else s))
      in if truthyBool (m_complete msg) \<or> truthyString (m_error msg)
         then processNextTask (s1 \<lparr> isProcessing := False \<rparr>)
         else s1)"

definition handleWorkerError :: "('p, 'r) imageProcessor \<Rightarrow> ('p, 'r) imageProcessor" where
  "handleWorkerError s = processNextTask (s \<lparr> isProcessing := False \<rparr>)"

definition cancelTask :: "nat \<Rightarrow> ('p, 'r) imageProcessor \<Rightarrow> ('p, 'r) imageProcessor" where
  "cancelTask taskId s =
     (if map_has (callbacks s) taskId then
        s \<lparr> callbacks := AList.delete taskId (callbacks s),
            taskQueue := filter (\<lambda>t. t_taskId t \<noteq> taskId) (taskQueue s) \<rparr>
      else s)"

section \<open>Histograms\<close>

text \<open>
  A pixel buffer is the content of a \<open>Uint8ClampedArray\<close>: a flat list of bytes, four per
  pixel (red, green, blue, alpha).
\<close>

type_synonym buffer = "8 word list"

datatype jsError = TypeError | RangeError

subsection \<open>\<open>calculateHistogram\<close> of the histogram manager\<close>

text \<open>
  \<open>calculateDataHash\<close>: \<open>sampleSize = min(1000, length / 4)\<close> need not be an integer;
  the loop runs over the integers below it and reads index \<open>floor(i * length / sampleSize)\<close>,
  which is always inside the buffer.
\<close>

definition calculateDataHash :: "buffer \<Rightarrow> string" where
  "calculateDataHash data =
     (let sampleSize = min 1000 (real (length data) / 4) :: real
      in toString36
           (fold (\<lambda>i hash.
                    let index = nat \<lfloor>real i * real (length data) / sampleSize\<rfloor>
                    in hashStep hash (uint (data ! index)))
                 [0 ..< nat \<lceil>sampleSize\<rceil>] 0))"

record histBin =
  bin_r :: nat
  bin_g :: nat
  bin_b :: nat
  bin_l :: nat

definition emptyHistogram :: "histBin list" where
  "emptyHistogram = replicate 256 \<lparr> bin_r = 0, bin_g = 0, bin_b = 0, bin_l = 0 \<rparr>"

text \<open>
  One pixel: \<open>histogram[r].r++; histogram[g].g++; histogram[b].b++; histogram[l].l++\<close>
  with \<open>l = Math.round(0.299 r + 0.587 g + 0.114 b)\<close>. An index outside the array would
  read \<open>undefined\<close> and the increment would throw.
\<close>

definition luminance601 :: "8 word \<Rightarrow> 8 word \<Rightarrow> 8 word \<Rightarrow> int" where
  "luminance601 r g b =
     mathRound (0.299 * real (unat r) + 0.587 * real (unat g) + 0.114 * real (unat b))"

definition countPixel :: "histBin list \<Rightarrow> 8 word \<Rightarrow> 8 word \<Rightarrow> 8 word \<Rightarrow> jsError + histBin list"
  where
  "countPixel h r g b =
     (let l = luminance601 r g b;
          h1 = h[unat r := (h ! unat r) \<lparr> bin_r := bin_r (h ! unat r) + 1 \<rparr>];
          h2 = h1[unat g := (h1 ! unat g) \<lparr> bin_g := bin_g (h1 ! unat g) + 1 \<rparr>];
          h3 = h2[unat b := (h2 ! unat b) \<lparr> bin_b := bin_b (h2 ! unat b) + 1 \<rparr>]
      in if unat r < length h \<and> unat g < length h \<and> unat b < length h \<and>
            0 \<le> l \<and> nat l < length h
         then Inr (h3[nat l := (h3 ! nat l) \<lparr> bin_l := bin_l (h3 ! nat l) + 1 \<rparr>])
         else Inl TypeError)"

text \<open>
  The loop \<open>for (i = 0; i < data.length; i += 4)\<close>. A last pixel with all of red, green
  and blue present is counted (alpha is not read); with green or blue missing the
  increment of \<open>histogram[undefined]\<close> throws.
\<close>

fun histogramLoop :: "buffer \<Rightarrow> histBin list \<Rightarrow> jsError + histBin list" where
  "histogramLoop (r # g # b # a # rest) h =
     (case countPixel h r g b of Inl e \<Rightarrow> Inl e | Inr h' \<Rightarrow> histogramLoop rest h')"
| "histogramLoop [r, g, b] h = countPixel h r g b"
| "histogramLoop [] h = Inr h"
| "histogramLoop [r, g] h = Inl TypeError"
| "histogramLoop [r] h = Inl TypeError"

record histogramCache =
  cachedHistogramData :: "histBin list option"
  lastImageDataHash :: "string option"
  stat_calls :: nat

definition newHistogramCache :: histogramCache where
  "newHistogramCache = \<lparr> cachedHistogramData = None, lastImageDataHash = None, stat_calls = 0 \<rparr>"

text \<open>
  \<open>calculateHistogram\<close>. The argument is \<open>None\<close> for a missing image or missing data, for
  which the function returns \<open>null\<close> (\<open>None\<close>). Both branches of the size test run the same
  loop. The timing statistics are left out.
\<close>

definition calculateHistogram ::
  "buffer option \<Rightarrow> histogramCache \<Rightarrow> jsError + (histBin list option \<times> histogramCache)" where
  "calculateHistogram imageData st =
     (case imageData of
        None \<Rightarrow> Inr (None, st)
      | Some data \<Rightarrow>
          (let st1 = st \<lparr> stat_calls := stat_calls st + 1 \<rparr>;
               currentHash = calculateDataHash data
           in if Some currentHash = lastImageDataHash st1 \<and> cachedHistogramData st1 \<noteq> None
              then Inr (cachedHistogramData st1, st1)
              else
                (case histogramLoop data emptyHistogram of
                   Inl e \<Rightarrow> Inl e
                 | Inr histogram \<Rightarrow>
                     Inr (Some histogram,
                          st1 \<lparr> cachedHistogramData := Some histogram,
                                lastImageDataHash := Some currentHash \<rparr>))))"

subsection \<open>\<open>computeHistogram\<close> of the worker\<close>

text \<open>
  The counters are \<open>Uint32Array\<close>s: an increment wraps at \<open>2^32\<close>, and an index that is
  not inside the array is ignored. Pixels with alpha below 128 are skipped. The luminance
  uses the BT.709 weights.
\<close>

record workerHistogram =
  h_red :: "nat list"
  h_green :: "nat list"
  h_blue :: "nat list"
  h_luminance :: "nat list"

definition incrementUint32 :: "nat list \<Rightarrow> nat \<Rightarrow> nat list" where
  "incrementUint32 counts i = counts[i := (counts ! i + 1) mod 2 ^ 32]"

definition luminance709 :: "8 word \<Rightarrow> 8 word \<Rightarrow> 8 word \<Rightarrow> int" where
  "luminance709 r g b =
     mathRound (0.2126 * real (unat r) + 0.7152 * real (unat g) + 0.0722 * real (unat b))"

definition countPixelWorker :: "workerHistogram \<Rightarrow> 8 word \<Rightarrow> 8 word \<Rightarrow> 8 word \<Rightarrow> workerHistogram"
  where
  "countPixelWorker h r g b =
     (let l = luminance709 r g b
      in \<lparr> h_red = incrementUint32 (h_red h) (unat r),
           h_green = incrementUint32 (h_green h) (unat g),
           h_blue = incrementUint32 (h_blue h) (unat b),
           h_luminance = (if 0 \<le> l then incrementUint32 (h_luminance h) (nat l)
                          else h_luminance h) \<rparr>)"

text \<open>
  In a trailing partial pixel a missing alpha is \<open>undefined\<close>, and \<open>undefined < 128\<close> is
  false, so the pixel is counted; a missing blue or green makes the luminance \<open>NaN\<close>, and
  the increments at \<open>undefined\<close> and \<open>NaN\<close> touch no counter.
\<close>

fun workerHistogramLoop :: "buffer \<Rightarrow> workerHistogram \<Rightarrow> workerHistogram" where
  "workerHistogramLoop (r # g # b # a # rest) h =
     (if a < 128 then workerHistogramLoop rest h
      else workerHistogramLoop rest (countPixelWorker h r g b))"
| "workerHistogramLoop [r, g, b] h = countPixelWorker h r g b"
| "workerHistogramLoop [r, g] h =
     h \<lparr> h_red := incrementUint32 (h_red h) (unat r),
         h_green := incrementUint32 (h_green h) (unat g) \<rparr>"
| "workerHistogramLoop [r] h = h \<lparr> h_red := incrementUint32 (h_red h) (unat r) \<rparr>"
| "workerHistogramLoop [] h = h"

definition computeHistogram :: "buffer \<Rightarrow> workerHistogram" where
  "computeHistogram imageData =
     workerHistogramLoop imageData
       \<lparr> h_red = replicate 256 0, h_green = replicate 256 0, h_blue = replicate 256 0,
         h_luminance = replicate 256 0 \<rparr>"

text \<open>The sums the claim speaks of, and the pixels the worker counts.\<close>

definition sum_r :: "histBin list \<Rightarrow> nat" where "sum_r h = sum_list (map bin_r h)"
definition sum_g :: "histBin list \<Rightarrow> nat" where "sum_g h = sum_list (map bin_g h)"
definition sum_b :: "histBin list \<Rightarrow> nat" where "sum_b h = sum_list (map bin_b h)"
definition sum_l :: "histBin list \<Rightarrow> nat" where "sum_l h = sum_list (map bin_l h)"

fun opaquePixels :: "buffer \<Rightarrow> nat" where
  "opaquePixels (r # g # b # a # rest) = (if a < 128 then 0 else 1) + opaquePixels rest"
| "opaquePixels _ = 0"

definition wellSized :: "workerHistogram \<Rightarrow> bool" where
  "wellSized h \<longleftrightarrow> length (h_red h) = 256 \<and> length (h_green h) = 256 \<and>
     length (h_blue h) = 256 \<and> length (h_luminance h) = 256"

section \<open>Colour replacement with history\<close>

subsection \<open>The canvas\<close>

text \<open>
  The 2D context is modelled as storing image data exactly: \<open>getImageData(0, 0, width,
  height)\<close> returns a copy of the stored bytes, and \<open>putImageData(image, 0, 0)\<close> overwrites
  the pixels of the rectangle the image covers. (A browser may lose precision on pixels
  that are not opaque; that is outside this model.)
\<close>

record canvas =
  cv_width :: nat
  cv_height :: nat
  cv_data :: buffer

definition getImageData :: "canvas \<Rightarrow> canvas" where
  "getImageData c = c"

definition putImageData :: "canvas \<Rightarrow> canvas \<Rightarrow> canvas" where
  "putImageData img c =
     c \<lparr> cv_data :=
           map (\<lambda>j. let p = j div 4; x = p mod cv_width c; y = p div cv_width c
                    in if x < cv_width img \<and> y < cv_height img \<and> y < cv_height c
                       then cv_data img ! ((y * cv_width img + x) * 4 + j mod 4)
                       else cv_data c ! j)
               [0 ..< length (cv_data c)] \<rparr>"

definition canvasOK :: "canvas \<Rightarrow> bool" where
  "canvasOK c \<longleftrightarrow> length (cv_data c) = 4 * (cv_width c * cv_height c)"

subsection \<open>Colour strings\<close>

text \<open>
  \<open>parseInt(s, 16)\<close> on a string of hexadecimal digits (the values of colour inputs are
  \<open>#rrggbb\<close>): the longest prefix of digits is read; \<open>None\<close> is \<open>NaN\<close>. In \<open>hexToRgb\<close> a
  \<open>NaN\<close> makes every channel \<open>0\<close>, and \<open>(n >> 16) & 255\<close> on an exact integer is the
  third byte of \<open>n\<close>.
\<close>

definition hexDigitValue :: "char \<Rightarrow> nat option" where
  "hexDigitValue =
     map_of
      [(CHR ''0'', 0), (CHR ''1'', 1), (CHR ''2'', 2), (CHR ''3'', 3),
       (CHR ''4'', 4), (CHR ''5'', 5), (CHR ''6'', 6), (CHR ''7'', 7),
       (CHR ''8'', 8), (CHR ''9'', 9), (CHR ''a'', 10), (CHR ''b'', 11),
       (CHR ''c'', 12), (CHR ''d'', 13), (CHR ''e'', 14), (CHR ''f'', 15),
       (CHR ''A'', 10), (CHR ''B'', 11), (CHR ''C'', 12), (CHR ''D'', 13),
       (CHR ''E'', 14), (CHR ''F'', 15)]"

fun parseHexDigits :: "nat option \<Rightarrow> string \<Rightarrow> nat option" where
  "parseHexDigits acc [] = acc"
| "parseHexDigits acc (c # cs) =
     (case hexDigitValue c of
        None \<Rightarrow> acc
      | Some d \<Rightarrow> parseHexDigits (Some (16 * (case acc of None \<Rightarrow> 0 | Some a \<Rightarrow> a) + d)) cs)"

definition hexToRgb :: "string \<Rightarrow> rgb" where
  "hexToRgb hex =
     (let hex' = (case hex of c # cs \<Rightarrow> if c = CHR ''#'' then cs else hex | [] \<Rightarrow> hex)
      in case parseHexDigits None hex' of
           None \<Rightarrow> Rgb 0 0 0
         | Some bigint \<Rightarrow>
             Rgb (int ((bigint div 65536) mod 256)) (int ((bigint div 256) mod 256))
                 (int (bigint mod 256)))"

definition hexDigitUpper :: "nat \<Rightarrow> char" where
  "hexDigitUpper d = ''0123456789ABCDEF'' ! d"

fun showHexUpper :: "nat \<Rightarrow> string" where
  "showHexUpper n =
     (if n < 16 then [hexDigitUpper n] else showHexUpper (n div 16) @ [hexDigitUpper (n mod 16)])"

text \<open>
  \<open>rgbToHex\<close>:
  \<open>'#' + ((1 << 24) + (r << 16) + (g << 8) + b).toString(16).slice(1).toUpperCase()\<close>.
\<close>

definition rgbToHex :: "8 word \<Rightarrow> 8 word \<Rightarrow> 8 word \<Rightarrow> string" where
  "rgbToHex r g b =
     CHR ''#'' # tl (showHexUpper (2 ^ 24 + unat r * 2 ^ 16 + unat g * 2 ^ 8 + unat b))"

subsection \<open>Finding the colours in a range\<close>

record position =
  pos_x :: nat
  pos_y :: nat
  pos_index :: nat

record colorInfo =
  ci_hex :: string
  ci_rgb :: rgb
  ci_positions :: "position list"

text \<open>The body of the pixel loop for a pixel that matches, at byte index \<open>i\<close>.\<close>

definition recordPosition ::
  "nat \<Rightarrow> nat \<Rightarrow> string \<Rightarrow> rgb \<Rightarrow> (string, colorInfo) jsmap \<Rightarrow> (string, colorInfo) jsmap" where
  "recordPosition width i pixelHex pixelRgb colorMap =
     (let colorMap1 =
            (if \<not> map_has colorMap pixelHex
             then AList.update pixelHex
                    \<lparr> ci_hex = pixelHex, ci_rgb = pixelRgb, ci_positions = [] \<rparr> colorMap
             else colorMap);
          pixelIndex = i div 4;
          x = pixelIndex mod width;
          y = pixelIndex div width;
          entry = the (map_of colorMap1 pixelHex)
      in AList.update pixelHex
           (entry \<lparr> ci_positions := ci_positions entry @ [\<lparr> pos_x = x, pos_y = y, pos_index = i \<rparr>] \<rparr>)
           colorMap1)"

text \<open>
  The loop \<open>for (i = 0; i < data.length; i += 4)\<close>, with the rest of the buffer from index
  \<open>i\<close> on. In a trailing partial pixel alpha is \<open>undefined\<close>, \<open>undefined > 0\<close> is false and
  the pixel is skipped.
\<close>

fun scanPixels ::
  "nat \<Rightarrow> rgb \<Rightarrow> rgb \<Rightarrow> int \<Rightarrow> nat \<Rightarrow> buffer \<Rightarrow> (string, colorInfo) jsmap
     \<Rightarrow> (string, colorInfo) jsmap" where
  "scanPixels width startRgb endRgb tolerance i (r # g # b # a # rest) colorMap =
     scanPixels width startRgb endRgb tolerance (i + 4) rest
       (if a > 0 \<and>
           pixelInRange (Rgb (uint r) (uint g) (uint b)) startRgb endRgb (real_of_int tolerance)
        then recordPosition width i (rgbToHex r g b) (Rgb (uint r) (uint g) (uint b)) colorMap
        else colorMap)"
| "scanPixels width startRgb endRgb tolerance i [r, g, b] colorMap = colorMap"
| "scanPixels width startRgb endRgb tolerance i [r, g] colorMap = colorMap"
| "scanPixels width startRgb endRgb tolerance i [r] colorMap = colorMap"
| "scanPixels width startRgb endRgb tolerance i [] colorMap = colorMap"

definition scanCanvas :: "canvas \<Rightarrow> string \<Rightarrow> string \<Rightarrow> int \<Rightarrow> colorInfo list" where
  "scanCanvas c startColor endColor tolerance =
     map snd (scanPixels (cv_width c) (hexToRgb startColor) (hexToRgb endColor) tolerance 0
                (cv_data (getImageData c)) [])"

text \<open>
  The state of the module: the canvas, the match cache, the history (a JavaScript array,
  in which an assignment beyond the end leaves holes, \<open>None\<close>), the index of the entry
  being edited (\<open>-1\<close> for none), and the values of the controls. Alerts, the history table
  and the result banner are not modelled.
\<close>

record changeRecord =
  cr_id :: int
  cr_startColor :: string
  cr_endColor :: string
  cr_targetStartColor :: string
  cr_targetEndColor :: string
  cr_mixRatio :: int
  cr_tolerance :: int
  cr_replacedPixels :: nat
  cr_originalImageData :: canvas
  cr_colorsInRange :: "(string \<times> nat) list"

record replaceState =
  st_canvas :: canvas
  colorCache :: "(string, colorInfo list) jsmap"
  colorReplaceHistory :: "changeRecord option list"
  currentEditingIndex :: int
  colorRangeStart :: string
  colorRangeEnd :: string
  targetColorStart :: string
  targetColorEnd :: string
  mixRatio :: int
  colorTolerance :: int

definition cacheKeyOf :: "string \<Rightarrow> string \<Rightarrow> int \<Rightarrow> canvas \<Rightarrow> string" where
  "cacheKeyOf startColor endColor tolerance c =
     startColor @ ''-'' @ endColor @ ''-'' @ showInt tolerance @ ''-'' @
     showNat (cv_width c) @ ''-'' @ showNat (cv_height c)"

definition findColorsInRange ::
  "string \<Rightarrow> string \<Rightarrow> int \<Rightarrow> replaceState \<Rightarrow> colorInfo list \<times> replaceState" where
  "findColorsInRange startColor endColor tolerance st =
     (let cacheKey = cacheKeyOf startColor endColor tolerance (st_canvas st)
      in case map_of (colorCache st) cacheKey of
           Some cached \<Rightarrow> (cached, st)
         | None \<Rightarrow>
             (let colorsInRange = scanCanvas (st_canvas st) startColor endColor tolerance
              in (colorsInRange,
                  st \<lparr> colorCache := AList.update cacheKey colorsInRange (colorCache st) \<rparr>)))"

definition clearColorCache :: "replaceState \<Rightarrow> replaceState" where
  "clearColorCache st = st \<lparr> colorCache := [] \<rparr>"

subsection \<open>Applying a replacement\<close>

definition calculateColorPosition :: "rgb \<Rightarrow> rgb \<Rightarrow> rgb \<Rightarrow> real" where
  "calculateColorPosition pixelRgb startRgb endRgb =
     (let startToEnd = startToEndOf startRgb endRgb;
          pixelToStart = Rgb (rgb_r pixelRgb - rgb_r startRgb) (rgb_g pixelRgb - rgb_g startRgb)
                             (rgb_b pixelRgb - rgb_b startRgb);
          dotProduct = rgb_r pixelToStart * rgb_r startToEnd
                     + rgb_g pixelToStart * rgb_g startToEnd
                     + rgb_b pixelToStart * rgb_b startToEnd;
          startToEndLengthSquared = lengthSquaredOf startToEnd
      in if startToEndLengthSquared = 0 then 0
         else max 0 (min 1 (real_of_int dotProduct / real_of_int startToEndLengthSquared)))"

definition interpolateColor :: "rgb \<Rightarrow> rgb \<Rightarrow> real \<Rightarrow> rgb" where
  "interpolateColor color1 color2 ratio =
     Rgb (mathRound (real_of_int (rgb_r color1)
                       + real_of_int (rgb_r color2 - rgb_r color1) * ratio))
         (mathRound (real_of_int (rgb_g color1)
                       + real_of_int (rgb_g color2 - rgb_g color1) * ratio))
         (mathRound (real_of_int (rgb_b color1)
                       + real_of_int (rgb_b color2 - rgb_b color1) * ratio))"

definition mixColors :: "rgb \<Rightarrow> rgb \<Rightarrow> real \<Rightarrow> rgb" where
  "mixColors color1 color2 ratio =
     Rgb (mathRound (real_of_int (rgb_r color1)
                       + real_of_int (rgb_r color2 - rgb_r color1) * ratio))
         (mathRound (real_of_int (rgb_g color1)
                       + real_of_int (rgb_g color2 - rgb_g color1) * ratio))
         (mathRound (real_of_int (rgb_b color1)
                       + real_of_int (rgb_b color2 - rgb_b color1) * ratio))"

text \<open>
  A store of an integer into a \<open>Uint8ClampedArray\<close> clamps it to \<open>[0, 255]\<close>; a store at an
  index outside the array is ignored, as \<^const>\<open>list_update\<close> does.
\<close>

definition clampToByte :: "int \<Rightarrow> 8 word" where
  "clampToByte v = word_of_int (max 0 (min 255 v))"

definition writePixel :: "rgb \<Rightarrow> position \<Rightarrow> buffer \<Rightarrow> buffer" where
  "writePixel finalRgb p data =
     (let index = pos_index p
      in data[index := clampToByte (rgb_r finalRgb),
              index + 1 := clampToByte (rgb_g finalRgb),
              index + 2 := clampToByte (rgb_b finalRgb)])"

definition replaceColor ::
  "rgb \<Rightarrow> rgb \<Rightarrow> rgb \<Rightarrow> rgb \<Rightarrow> real \<Rightarrow> colorInfo \<Rightarrow> buffer \<times> nat \<Rightarrow> buffer \<times> nat" where
  "replaceColor startRgb endRgb targetStartRgb targetEndRgb ratio color acc =
     (let positionRatio = calculateColorPosition (ci_rgb color) startRgb endRgb;
          targetRgb = interpolateColor targetStartRgb targetEndRgb positionRatio;
          finalRgb = mixColors (ci_rgb color) targetRgb ratio
      in (fold (writePixel finalRgb) (ci_positions color) (fst acc),
          snd acc + length (ci_positions color)))"

text \<open>
  \<open>applyColorReplaceToImageData\<close> changes the image data in place and returns the number
  of replaced pixels; the model returns both.
\<close>

definition applyColorReplaceToImageData ::
  "canvas \<Rightarrow> colorInfo list \<Rightarrow> string \<Rightarrow> string \<Rightarrow> string \<Rightarrow> string \<Rightarrow> real \<Rightarrow> canvas \<times> nat"
  where
  "applyColorReplaceToImageData imageData colorsInRange startColor endColor
       targetStartColor targetEndColor ratio =
     (let res = fold (replaceColor (hexToRgb startColor) (hexToRgb endColor)
                        (hexToRgb targetStartColor) (hexToRgb targetEndColor) ratio)
                  colorsInRange (cv_data imageData, 0)
      in (imageData \<lparr> cv_data := fst res \<rparr>, snd res))"

text \<open>\<open>array[i] = v\<close> on a JavaScript array: beyond the end the array grows, with holes.\<close>

definition arrayAssign :: "'a option list \<Rightarrow> nat \<Rightarrow> 'a \<Rightarrow> 'a option list" where
  "arrayAssign xs i v =
     (if i < length xs then xs[i := Some v]
      else xs @ replicate (i - length xs) None @ [Some v])"

text \<open>
  \<open>applyColorReplaceEffect\<close>; \<open>now\<close> is \<open>Date.now()\<close>. The result is the number of replaced
  pixels the function reports, \<open>None\<close> when it stops because nothing matches.
\<close>

definition applyColorReplaceEffect :: "int \<Rightarrow> replaceState \<Rightarrow> nat option \<times> replaceState" where
  "applyColorReplaceEffect now st =
     (let startColor = colorRangeStart st;
          endColor = colorRangeEnd st;
          targetStartColor = targetColorStart st;
          targetEndColor = targetColorEnd st;
          mixRatioValue = real_of_int (mixRatio st) / 100;
          tolerance = colorTolerance st;
          found = findColorsInRange startColor endColor tolerance st;
          colorsInRange = fst found;
          st1 = snd found
      in if colorsInRange = [] then (None, st1)
         else
           (let imageData = getImageData (st_canvas st1);
                originalImageData = imageData;
                applied = applyColorReplaceToImageData imageData colorsInRange startColor endColor
                            targetStartColor targetEndColor mixRatioValue;
                replacedPixels = snd applied;
                st2 = st1 \<lparr> st_canvas := putImageData (fst applied) (st_canvas st1) \<rparr>;
                changeRecord =
                  \<lparr> cr_id = now, cr_startColor = startColor, cr_endColor = endColor,
                    cr_targetStartColor = targetStartColor, cr_targetEndColor = targetEndColor,
                    cr_mixRatio = mixRatio st, cr_tolerance = tolerance,
                    cr_replacedPixels = replacedPixels,
                    cr_originalImageData = originalImageData,
                    cr_colorsInRange =
                      map (\<lambda>color. (ci_hex color, length (ci_positions color))) colorsInRange \<rparr>;
                st3 =
                  (if currentEditingIndex st2 \<ge> 0 then
                     st2 \<lparr> colorReplaceHistory :=
                             arrayAssign (colorReplaceHistory st2)
                               (nat (currentEditingIndex st2)) changeRecord,
                           currentEditingIndex := - 1 \<rparr>
                   else
                     st2 \<lparr> colorReplaceHistory :=
                             colorReplaceHistory st2 @ [Some changeRecord] \<rparr>)
            in (Some replacedPixels, clearColorCache st3)))"

text \<open>
  \<open>undoLastColorReplace\<close>. A hole as last element makes \<open>lastChange.originalImageData\<close>
  throw.
\<close>

definition undoLastColorReplace :: "replaceState \<Rightarrow> jsError + replaceState" where
  "undoLastColorReplace st =
     (if colorReplaceHistory st = [] then Inr st
      else
        (case last (colorReplaceHistory st) of
           None \<Rightarrow> Inl TypeError
         | Some lastChange \<Rightarrow>
             Inr (clearColorCache
                    (st \<lparr> st_canvas := putImageData (cr_originalImageData lastChange) (st_canvas st),
                         colorReplaceHistory := butlast (colorReplaceHistory st) \<rparr>))))"

text \<open>\<open>window.editColorReplace\<close> and \<open>window.deleteColorReplace\<close> (after confirmation).\<close>

definition editColorReplace :: "nat \<Rightarrow> replaceState \<Rightarrow> replaceState" where
  "editColorReplace index st =
     (if index < length (colorReplaceHistory st) then
        (case colorReplaceHistory st ! index of
           None \<Rightarrow> st
         | Some entry \<Rightarrow>
             st \<lparr> colorRangeStart := cr_startColor entry,
                  colorRangeEnd := cr_endColor entry,
                  targetColorStart := cr_targetStartColor entry,
                  targetColorEnd := cr_targetEndColor entry,
                  mixRatio := cr_mixRatio entry,
                  colorTolerance := cr_tolerance entry,
                  currentEditingIndex := int index \<rparr>)
      else st)"

definition deleteColorReplace :: "nat \<Rightarrow> replaceState \<Rightarrow> jsError + replaceState" where
  "deleteColorReplace index st =
     (if index < length (colorReplaceHistory st) then
        (case colorReplaceHistory st ! index of
           None \<Rightarrow> Inl TypeError
         | Some entry \<Rightarrow>
             Inr (clearColorCache
                    (st \<lparr> st_canvas := putImageData (cr_originalImageData entry) (st_canvas st),
                         colorReplaceHistory :=
                           take index (colorReplaceHistory st)
                             @ drop (Suc index) (colorReplaceHistory st) \<rparr>)))
      else Inl TypeError)"

subsection \<open>A session that edits an earlier history entry\<close>

text \<open>
  A canvas of one red pixel. The first replacement turns red into green and the second
  green into blue. The user then presses \<open>edit\<close> on the first history row, which puts the
  module into edit mode for index 0, and sets the controls to turn blue into white.
\<close>

definition session0 :: replaceState where
  "session0 =
     \<lparr> st_canvas = \<lparr> cv_width = 1, cv_height = 1, cv_data = [255, 0, 0, 255] \<rparr>,
       colorCache = [], colorReplaceHistory = [], currentEditingIndex = - 1,
       colorRangeStart = ''#ff0000'', colorRangeEnd = ''#ff0000'',
       targetColorStart = ''#00ff00'', targetColorEnd = ''#00ff00'',
       mixRatio = 100, colorTolerance = 0 \<rparr>"

definition session1 :: replaceState where
  "session1 =
     (snd (applyColorReplaceEffect 1 session0))
       \<lparr> colorRangeStart := ''#00ff00'', colorRangeEnd := ''#00ff00'',
         targetColorStart := ''#0000ff'', targetColorEnd := ''#0000ff'' \<rparr>"

definition session2 :: replaceState where
  "session2 =
     (editColorReplace 0 (snd (applyColorReplaceEffect 2 session1)))
       \<lparr> colorRangeStart := ''#0000ff'', colorRangeEnd := ''#0000ff'',
         targetColorStart := ''#ffffff'', targetColorEnd := ''#ffffff'' \<rparr>"

section \<open>The colour-grading pass \<open>applyColorAdjustments\<close>\<close>

text \<open>
  The function reads five sliders of \<open>colorElements\<close> through \<open>parseInt\<close> and looks up the
  temperature and tint sliders in the document, where they may be absent (then the value
  is \<open>0\<close>). In \<open>settings\<close> a field may be undefined (\<open>None\<close>).
\<close>

record colorElements =
  el_contrast :: "int option"
  el_saturation :: "int option"
  el_shadows :: "int option"
  el_highlights :: "int option"
  el_whites :: "int option"
  el_temperature :: "int option option"
  el_tint :: "int option option"

record settings =
  s_bright :: "jsnum option"
  s_exp_shift :: "jsnum option"
  s_shadows :: "jsnum option"
  s_highlights :: "jsnum option"
  s_whites :: "jsnum option"
  s_user_mul :: "jsnum list option"

text \<open>\<open>x || d\<close> for a number or undefined \<open>x\<close>.\<close>

definition orDefault :: "jsnum option \<Rightarrow> jsnum \<Rightarrow> jsnum" where
  "orDefault x d = (case x of None \<Rightarrow> d | Some v \<Rightarrow> if jtruthy v then v else d)"

text \<open>The values the function computes before its pixel loop.\<close>

record grading =
  brightness :: jsnum
  contrast :: jsnum
  saturation :: jsnum
  exposure :: jsnum
  shadows :: jsnum
  temperature :: "int option"
  tint :: "int option"
  useUserMul :: bool
  user_mul :: "jsnum list"
  contrastFactor :: jsnum
  exposureFactor :: jsnum
  saturationFactor :: jsnum
  highlights :: jsnum
  whites :: jsnum

definition prepare :: "colorElements \<Rightarrow> settings \<Rightarrow> grading" where
  "prepare els st =
     (let brightness' = orDefault (s_bright st) (Fin 1);
          contrast' = fromParse (el_contrast els);
          saturation' = fromParse (el_saturation els);
          exposure' = orDefault (s_exp_shift st) (Fin 0)
      in \<lparr> brightness = brightness',
           contrast = contrast',
           saturation = saturation',
           exposure = exposure',
           shadows = (case s_shadows st of Some v \<Rightarrow> v | None \<Rightarrow> fromParse (el_shadows els)),
           temperature = (case el_temperature els of None \<Rightarrow> Some 0 | Some p \<Rightarrow> p),
           tint = (case el_tint els of None \<Rightarrow> Some 0 | Some p \<Rightarrow> p),
           useUserMul = (case s_user_mul st of None \<Rightarrow> False | Some m \<Rightarrow> length m = 4),
           user_mul = (case s_user_mul st of None \<Rightarrow> [] | Some m \<Rightarrow> m),
           contrastFactor =
             (if jne contrast' (Fin 0)
              then jdiv (jmul (Fin 259) (jadd contrast' (Fin 255)))
                        (jmul (Fin 255) (jsub (Fin 259) contrast'))
              else Fin 1),
           exposureFactor = (if jne exposure' (Fin 0) then pow2 exposure' else Fin 1),
           saturationFactor =
             (if jne saturation' (Fin 100) then jdiv saturation' (Fin 100) else Fin 1),
           highlights =
             (case s_highlights st of Some v \<Rightarrow> v | None \<Rightarrow> fromParse (el_highlights els)),
           whites = (case s_whites st of Some v \<Rightarrow> v | None \<Rightarrow> fromParse (el_whites els)) \<rparr>)"

definition needBrightness :: "grading \<Rightarrow> bool" where
  "needBrightness p = jne (brightness p) (Fin 1)"
definition needContrast :: "grading \<Rightarrow> bool" where
  "needContrast p = jne (contrast p) (Fin 0)"
definition needSaturation :: "grading \<Rightarrow> bool" where
  "needSaturation p = jne (saturation p) (Fin 100)"
definition needTemperature :: "grading \<Rightarrow> bool" where
  "needTemperature p = (temperature p \<noteq> Some 0)"
definition needTint :: "grading \<Rightarrow> bool" where
  "needTint p = (tint p \<noteq> Some 0)"
definition needExposure :: "grading \<Rightarrow> bool" where
  "needExposure p = jne (exposure p) (Fin 0)"
definition needShadows :: "grading \<Rightarrow> bool" where
  "needShadows p = jne (shadows p) (Fin 0)"
definition needHighlights :: "grading \<Rightarrow> bool" where
  "needHighlights p = jne (highlights p) (Fin 0)"
definition needWhites :: "grading \<Rightarrow> bool" where
  "needWhites p = jne (whites p) (Fin 100)"

definition nothingToDo :: "grading \<Rightarrow> bool" where
  "nothingToDo p \<longleftrightarrow>
     \<not> needBrightness p \<and> \<not> needContrast p \<and> \<not> needSaturation p \<and>
     \<not> needTemperature p \<and> \<not> needTint p \<and> \<not> needExposure p \<and> \<not> useUserMul p \<and>
     \<not> needShadows p \<and> \<not> needHighlights p \<and> \<not> needWhites p"

subsection \<open>The stages of the pixel loop\<close>

type_synonym pixel = "jsnum \<times> jsnum \<times> jsnum"

definition clamp255 :: "jsnum \<Rightarrow> jsnum" where
  "clamp255 x = jmin (Fin 255) (jmax (Fin 0) x)"

definition whiteBalanceStage :: "grading \<Rightarrow> pixel \<Rightarrow> pixel" where
  "whiteBalanceStage p px =
     (case px of (r, g, b) \<Rightarrow>
        (clamp255 (jmul r (user_mul p ! 0)),
         clamp255 (jmul g (user_mul p ! 1)),
         clamp255 (jmul b (user_mul p ! 2))))"

definition brightnessStage :: "grading \<Rightarrow> pixel \<Rightarrow> pixel" where
  "brightnessStage p px =
     (case px of (r, g, b) \<Rightarrow>
        (clamp255 (jmul r (brightness p)),
         clamp255 (jmul g (brightness p)),
         clamp255 (jmul b (brightness p))))"

definition contrastStage :: "grading \<Rightarrow> pixel \<Rightarrow> pixel" where
  "contrastStage p px =
     (case px of (r, g, b) \<Rightarrow>
        (clamp255 (jadd (jmul (contrastFactor p) (jsub r (Fin 128))) (Fin 128)),
         clamp255 (jadd (jmul (contrastFactor p) (jsub g (Fin 128))) (Fin 128)),
         clamp255 (jadd (jmul (contrastFactor p) (jsub b (Fin 128))) (Fin 128))))"

definition saturationStage :: "grading \<Rightarrow> pixel \<Rightarrow> pixel" where
  "saturationStage p px =
     (case px of (r, g, b) \<Rightarrow>
        (let gray = jadd (jadd (jmul (Fin 0.299) r) (jmul (Fin 0.587) g)) (jmul (Fin 0.114) b)
         in (clamp255 (jadd gray (jmul (saturationFactor p) (jsub r gray))),
             clamp255 (jadd gray (jmul (saturationFactor p) (jsub g gray))),
             clamp255 (jadd gray (jmul (saturationFactor p) (jsub b gray))))))"

text \<open>
  Temperature and tint: \<open>t > 0\<close> is false for \<open>NaN\<close>, and \<open>t >> 1\<close> is the shift of the
  32-bit integer.
\<close>

definition temperatureStage :: "grading \<Rightarrow> pixel \<Rightarrow> pixel" where
  "temperatureStage p px =
     (case px of (r, g, b) \<Rightarrow>
        (let t = fromParse (temperature p);
             half = Fin (real_of_int (shiftRight1 (temperature p)));
             r1 = (if jgt t (Fin 0) then jadd r t else jadd r half);
             b1 = (if jgt t (Fin 0) then jsub b half else jsub b t)
         in (clamp255 r1, g, clamp255 b1)))"

definition tintStage :: "grading \<Rightarrow> pixel \<Rightarrow> pixel" where
  "tintStage p px =
     (case px of (r, g, b) \<Rightarrow>
        (let t = fromParse (tint p);
             half = Fin (real_of_int (shiftRight1 (tint p)));
             g1 = (if jgt t (Fin 0) then jadd g t else jadd g half);
             r1 = (if jgt t (Fin 0) then jsub r half else jsub r t)
         in (clamp255 r1, clamp255 g1, b)))"

definition exposureStage :: "grading \<Rightarrow> pixel \<Rightarrow> pixel" where
  "exposureStage p px =
     (case px of (r, g, b) \<Rightarrow>
        (clamp255 (jmul r (exposureFactor p)),
         clamp255 (jmul g (exposureFactor p)),
         clamp255 (jmul b (exposureFactor p))))"

definition liftShadow :: "jsnum \<Rightarrow> jsnum \<Rightarrow> jsnum" where
  "liftShadow shadowAdjustment v =
     (if jlt v (Fin 64)
      then jmin (Fin 64) (jmax (Fin 0) (jadd v (jmul (jsub (Fin 64) v) shadowAdjustment)))
      else v)"

definition shadowsStage :: "grading \<Rightarrow> pixel \<Rightarrow> pixel" where
  "shadowsStage p px =
     (case px of (r, g, b) \<Rightarrow>
        (let shadowAdjustment = jdiv (shadows p) (Fin 100)
         in (liftShadow shadowAdjustment r, liftShadow shadowAdjustment g,
             liftShadow shadowAdjustment b)))"

definition pushHighlight :: "jsnum \<Rightarrow> jsnum \<Rightarrow> jsnum" where
  "pushHighlight highlightAdjustment v =
     (if jgt v (Fin 192)
      then jmax (Fin 192) (jmin (Fin 255) (jadd v (jmul (jsub v (Fin 192)) highlightAdjustment)))
      else v)"

definition highlightsStage :: "grading \<Rightarrow> pixel \<Rightarrow> pixel" where
  "highlightsStage p px =
     (case px of (r, g, b) \<Rightarrow>
        (let highlightAdjustment = jdiv (highlights p) (Fin 100)
         in (pushHighlight highlightAdjustment r, pushHighlight highlightAdjustment g,
             pushHighlight highlightAdjustment b)))"

text \<open>The whites stage clamps from above only: \<open>min(255, r * adjustFactor)\<close>.\<close>

definition whitesStage :: "grading \<Rightarrow> pixel \<Rightarrow> pixel" where
  "whitesStage p px =
     (case px of (r, g, b) \<Rightarrow>
        (let whiteAdjustment = jdiv (whites p) (Fin 100)
         in if jgt r (Fin 220) \<or> jgt g (Fin 220) \<or> jgt b (Fin 220) then
              (let brightness' = jdiv (jadd (jadd r g) b) (Fin 3)
               in if jgt brightness' (Fin 220) then
                    (jmin (Fin 255) (jmul r whiteAdjustment),
                     jmin (Fin 255) (jmul g whiteAdjustment),
                     jmin (Fin 255) (jmul b whiteAdjustment))
                  else (r, g, b))
            else (r, g, b)))"

definition stageIf :: "bool \<Rightarrow> (pixel \<Rightarrow> pixel) \<Rightarrow> pixel \<Rightarrow> pixel" where
  "stageIf needed stage px = (if needed then stage px else px)"

text \<open>The body of the loop between reading and writing back a pixel.\<close>

definition adjustPixel :: "grading \<Rightarrow> pixel \<Rightarrow> pixel" where
  "adjustPixel p px =
     stageIf (needWhites p) (whitesStage p)
       (stageIf (needHighlights p) (highlightsStage p)
         (stageIf (needShadows p) (shadowsStage p)
           (stageIf (needExposure p) (exposureStage p)
             (stageIf (needTint p) (tintStage p)
               (stageIf (needTemperature p) (temperatureStage p)
                 (stageIf (needSaturation p) (saturationStage p)
                   (stageIf (needContrast p) (contrastStage p)
                     (stageIf (needBrightness p) (brightnessStage p)
                       (stageIf (useUserMul p) (whiteBalanceStage p) px)))))))))"

text \<open>
  One iteration at byte index \<open>i\<close>: read three channels, adjust, write them back. Alpha
  at \<open>i + 3\<close> is neither read nor written. A write past the end of the typed array is
  ignored, as \<^const>\<open>list_update\<close> does.
\<close>

definition adjustAt :: "grading \<Rightarrow> nat \<Rightarrow> buffer \<Rightarrow> buffer" where
  "adjustAt p i data =
     (case adjustPixel p (readNum data i, readNum data (i + 1), readNum data (i + 2)) of
        (r, g, b) \<Rightarrow>
          data[i := toUint8Clamp r, i + 1 := toUint8Clamp g, i + 2 := toUint8Clamp b])"

text \<open>
  \<open>applyColorAdjustments(data, width, height, settings)\<close>; the width and height are not
  used. The loop \<open>for (i = 0; i < dataLength; i += 4)\<close> visits \<open>i = 4 k\<close> for the \<open>k\<close>
  below \<open>ceil(dataLength / 4)\<close>.
\<close>

definition applyColorAdjustments :: "colorElements \<Rightarrow> settings \<Rightarrow> buffer \<Rightarrow> buffer" where
  "applyColorAdjustments els st data =
     (let p = prepare els st
      in if nothingToDo p then data
         else fold (\<lambda>k d. adjustAt p (4 * k) d) [0 ..< (length data + 3) div 4] data)"

text \<open>
  The identity values of the claim about the fast path: brightness multiplier 1 (also
  meant by an unset field), contrast 0, saturation 100, temperature and tint 0 (or no
  such slider), exposure 0, shadows and highlights 0, whites 100, and no white-balance
  vector of four multipliers.
\<close>

definition allIdentity :: "colorElements \<Rightarrow> settings \<Rightarrow> bool" where
  "allIdentity els st \<longleftrightarrow>
     (s_bright st = None \<or> s_bright st = Some (Fin 1)) \<and>
     el_contrast els = Some 0 \<and>
     el_saturation els = Some 100 \<and>
     (el_temperature els = None \<or> el_temperature els = Some (Some 0)) \<and>
     (el_tint els = None \<or> el_tint els = Some (Some 0)) \<and>
     (s_exp_shift st = None \<or> s_exp_shift st = Some (Fin 0)) \<and>
     (s_shadows st = Some (Fin 0) \<or> s_shadows st = None \<and> el_shadows els = Some 0) \<and>
     (s_highlights st = Some (Fin 0) \<or> s_highlights st = None \<and> el_highlights els = Some 0) \<and>
     (s_whites st = Some (Fin 100) \<or> s_whites st = None \<and> el_whites els = Some 100) \<and>
     s_user_mul st = None"





text \<open>Sliders and settings at their neutral positions, used for concrete runs.\<close>

definition neutralElements :: colorElements where
  "neutralElements =
     \<lparr> el_contrast = Some 0, el_saturation = Some 100, el_shadows = Some 0,
       el_highlights = Some 0, el_whites = Some 100, el_temperature = None, el_tint = None \<rparr>"

definition neutralSettings :: settings where
  "neutralSettings =
     \<lparr> s_bright = None, s_exp_shift = None, s_shadows = None, s_highlights = None,
       s_whites = None, s_user_mul = None \<rparr>"

section \<open>The worker's median and Gaussian filters\<close>

text \<open>
  The width, the height and the radius of a task are integers, of either sign, and so
  are the indices computed from them. A read of a byte array at an index outside it gives
  \<open>undefined\<close>; a store outside it is ignored.
\<close>

datatype elem = Undefined | Byte "8 word"

definition elemAt :: "buffer \<Rightarrow> int \<Rightarrow> elem" where
  "elemAt data i = (if 0 \<le> i \<and> i < int (length data) then Byte (data ! nat i) else Undefined)"

definition storeAt :: "int \<Rightarrow> 8 word \<Rightarrow> buffer \<Rightarrow> buffer" where
  "storeAt i v data = (if 0 \<le> i \<and> i < int (length data) then data[nat i := v] else data)"

text \<open>The byte that a store of an element into a clamped byte array writes.\<close>

fun byteOf :: "elem \<Rightarrow> 8 word" where
  "byteOf Undefined = 0"
| "byteOf (Byte v) = v"

text \<open>The number an element is in arithmetic.\<close>

fun numOf :: "elem \<Rightarrow> jsnum" where
  "numOf Undefined = NaN"
| "numOf (Byte v) = Fin (real (unat v))"

subsection \<open>Median filter\<close>














subsection \<open>Gaussian filter\<close>






text \<open>
  \<open>Math.floor(size / 2)\<close>, and the values of \<open>k\<close> in \<open>for (k = -radius; k <= radius; k++)\<close>,
  for the sizes with which an array can be made: with \<open>NaN\<close> the radius is \<open>NaN\<close> and the
  loop does not run.
\<close>

definition radiusOf :: "jsnum \<Rightarrow> int" where
  "radiusOf len = (case len of Fin a \<Rightarrow> \<lfloor>a / 2\<rfloor> | _ \<Rightarrow> 0)"

definition taps :: "jsnum \<Rightarrow> int list" where
  "taps len = (case len of Fin a \<Rightarrow> [- \<lfloor>a / 2\<rfloor> .. \<lfloor>a / 2\<rfloor>] | _ \<Rightarrow> [])"

text \<open>Reads and stores on the kernel array.\<close>

definition kernelAt :: "jsnum list \<Rightarrow> int \<Rightarrow> jsnum" where
  "kernelAt kern i = (if 0 \<le> i \<and> i < int (length kern) then kern ! nat i else NaN)"






text \<open>
  One turn of an inner loop: the tap \<open>k\<close> reads the pixel at \<open>indexOf k\<close> of \<open>src\<close> and adds
  to the three sums and to the sum of the weights.
\<close>

definition accumulate ::
  "buffer \<Rightarrow> jsnum list \<Rightarrow> int \<Rightarrow> (int \<Rightarrow> int) \<Rightarrow> int
     \<Rightarrow> jsnum \<times> jsnum \<times> jsnum \<times> jsnum \<Rightarrow> jsnum \<times> jsnum \<times> jsnum \<times> jsnum" where
  "accumulate src kern radius indexOf k acc =
     (case acc of (r, g, b, weightSum) \<Rightarrow>
        let weight = kernelAt kern (k + radius);
            index = indexOf k
        in (jadd r (jmul (numOf (elemAt src index)) weight),
            jadd g (jmul (numOf (elemAt src (index + 1))) weight),
            jadd b (jmul (numOf (elemAt src (index + 2))) weight),
            jadd weightSum weight))"

text \<open>\<open>Math.min(255, Math.max(0, Math.round(s / weightSum)))\<close>, as stored.\<close>

definition blurred :: "jsnum \<Rightarrow> jsnum \<Rightarrow> 8 word" where
  "blurred s weightSum = toUint8Clamp (jmin (Fin 255) (jmax (Fin 0) (jround (jdiv s weightSum))))"

text \<open>
  The body of a pass at \<open>(y, x)\<close>: it reads \<open>src\<close> and writes the pixel of \<open>dst\<close>, the alpha
  byte from \<open>src\<close>.
\<close>

definition blurAt ::
  "buffer \<Rightarrow> jsnum list \<Rightarrow> jsnum \<Rightarrow> int \<Rightarrow> (int \<Rightarrow> int \<Rightarrow> int \<Rightarrow> int) \<Rightarrow> int \<times> int
     \<Rightarrow> buffer \<Rightarrow> buffer" where
  "blurAt src kern len width indexOf yx dst =
     (case yx of (y, x) \<Rightarrow>
        case fold (accumulate src kern (radiusOf len) (indexOf y x)) (taps len)
               (Fin 0, Fin 0, Fin 0, Fin 0) of
          (r, g, b, weightSum) \<Rightarrow>
            let index = (y * width + x) * 4
            in storeAt (index + 3) (byteOf (elemAt src (index + 3)))
                 (storeAt (index + 2) (blurred b weightSum)
                   (storeAt (index + 1) (blurred g weightSum)
                     (storeAt index (blurred r weightSum) dst))))"


section \<open>Properties of colour-range matching\<close>

subsection \<open>Facts about the precomputed vector\<close>

lemma sum3_squares_zero_iff:
  "(x::int)\<^sup>2 + y\<^sup>2 + z\<^sup>2 = 0 \<longleftrightarrow> x = 0 \<and> y = 0 \<and> z = 0"
proof
  assume h: "x\<^sup>2 + y\<^sup>2 + z\<^sup>2 = 0"
  have "0 \<le> x\<^sup>2" "0 \<le> y\<^sup>2" "0 \<le> z\<^sup>2" by simp_all
  with h have "x\<^sup>2 = 0" "y\<^sup>2 = 0" "z\<^sup>2 = 0" by linarith+
  then show "x = 0 \<and> y = 0 \<and> z = 0" by simp
qed simp

lemma lengthSquared_zero_iff:
  "lengthSquaredOf (startToEndOf s e) = 0 \<longleftrightarrow> s = e"
proof -
  have "lengthSquaredOf (startToEndOf s e)
          = (rgb_r e - rgb_r s)\<^sup>2 + (rgb_g e - rgb_g s)\<^sup>2 + (rgb_b e - rgb_b s)\<^sup>2"
    by (simp add: lengthSquaredOf_def startToEndOf_def power2_eq_square)
  then show ?thesis
    by (auto simp: sum3_squares_zero_iff rgb.expand)
qed





lemma pixelInRange_degenerate:
  "pixelInRange p s s tol \<longleftrightarrow> spec_euclid p s \<le> tol"
  by (simp add: pixelInRange_def isColorInRangeOptimized_def lengthSquared_zero_iff
        spec_euclid_def Let_def)






text \<open>
  Claim C6. For a degenerate segment (start equals end) and a tolerance \<open>tol \<ge> 0\<close> a
  pixel matches exactly when its Euclidean RGB distance to the start colour is at most
  \<open>tol\<close>. With start = end = (255,0,0): at tolerance 0 the pixel (255,0,0) matches and
  (254,0,0) does not; at tolerance 1 the pixel (254,0,0) matches.
\<close>

theorem degenerate_match_iff_euclidean:
  "(startRgb = endRgb \<and> 0 \<le> tol \<longrightarrow>
      (pixelInRange pixelRgb startRgb endRgb tol
         \<longleftrightarrow> spec_euclid pixelRgb startRgb \<le> tol)) \<and>
   pixelInRange (Rgb 255 0 0) (Rgb 255 0 0) (Rgb 255 0 0) 0 \<and>
   \<not> pixelInRange (Rgb 254 0 0) (Rgb 255 0 0) (Rgb 255 0 0) 0 \<and>
   pixelInRange (Rgb 254 0 0) (Rgb 255 0 0) (Rgb 255 0 0) 1"
  by (auto simp: pixelInRange_degenerate spec_euclid_def)

theorem degenerate_match_witness:
  "Rgb 10 20 30 = Rgb 10 20 30 \<and> (0::real) \<le> 5 \<and>
   pixelInRange (Rgb 13 24 30) (Rgb 10 20 30) (Rgb 10 20 30) 5 \<and>
   \<not> pixelInRange (Rgb 13 24 31) (Rgb 10 20 30) (Rgb 10 20 30) 5"
proof -
  have a: "spec_euclid (Rgb 13 24 30) (Rgb 10 20 30) = 5"
    by (simp add: spec_euclid_def real_sqrt_unique)
  have "(5::real) = sqrt 25" by (simp add: real_sqrt_unique)
  also have "\<dots> < sqrt 26" by (simp only: real_sqrt_less_iff)
  finally have b: "\<not> spec_euclid (Rgb 13 24 31) (Rgb 10 20 30) \<le> 5"
    by (simp add: spec_euclid_def)
  show ?thesis
    using degenerate_match_iff_euclidean
            [of "Rgb 10 20 30" "Rgb 10 20 30" 5 "Rgb 13 24 30"]
          degenerate_match_iff_euclidean
            [of "Rgb 10 20 30" "Rgb 10 20 30" 5 "Rgb 13 24 31"]
          a b
    by simp
qed

section \<open>Properties of the result cache\<close>

lemma prefix_timestampKey:
  "prefix (typeName ty @ ''_'') (timestampKey ty' k) \<longleftrightarrow> ty = ty'"
  by (cases ty; cases ty') (simp_all add: timestampKey_def)

lemma drop_timestampKey:
  "drop (length (typeName ty @ ''_'')) (timestampKey ty k) = k"
  by (simp add: timestampKey_def)

lemma drop_Suc_timestampKey:
  "drop (Suc (length (typeName ty))) (timestampKey ty k) = k"
  by (simp add: timestampKey_def)

lemma timestampKey_inject:
  "timestampKey ty k = timestampKey ty' k' \<longleftrightarrow> ty = ty' \<and> k = k'"
  by (cases ty; cases ty') (simp_all add: timestampKey_def)

lemma prefixed_is_timestampKey:
  assumes "prefix (typeName ty @ ''_'') tk"
  shows "tk = timestampKey ty (drop (length (typeName ty @ ''_'')) tk)"
proof -
  from assms obtain rest where "tk = (typeName ty @ ''_'') @ rest"
    by (auto simp: prefix_def)
  then show ?thesis by (simp add: timestampKey_def)
qed

text \<open>What the pass of \<open>getOldestCacheKey\<close> computes, for any starting accumulator.\<close>

lemma oldest_fold_min:
  "\<forall>e \<in> set xs. prefix (typeName ty @ ''_'') (fst e) \<longrightarrow>
      (\<exists>r. snd (fold (oldestStep ty) xs acc) = Some r \<and> r \<le> snd e)"
  "\<forall>t. snd acc = Some t \<longrightarrow> (\<exists>r. snd (fold (oldestStep ty) xs acc) = Some r \<and> r \<le> t)"
  "fold (oldestStep ty) xs acc = acc \<or>
     (\<exists>e \<in> set xs. prefix (typeName ty @ ''_'') (fst e) \<and>
        fold (oldestStep ty) xs acc
          = (Some (drop (length (typeName ty @ ''_'')) (fst e)), Some (snd e)))"
proof (induction xs rule: rev_induct)
  case Nil
  { case 1 show ?case by simp }
  { case 2 show ?case by simp }
  { case 3 show ?case by simp }
next
  case (snoc x xs)
  { case 1
    show ?case
      using snoc.IH(1) snoc.IH(2)
      by (cases "snd (fold (oldestStep ty) xs acc)")
         (fastforce simp: oldestStep_def Let_def)+ }
  { case 2
    show ?case
      using snoc.IH(2)
      by (cases "snd (fold (oldestStep ty) xs acc)")
         (fastforce simp: oldestStep_def Let_def)+ }
  { case 3
    show ?case
      using snoc.IH(3)
      by (auto simp: oldestStep_def Let_def) }
qed

lemma getOldestCacheKey_oldest:
  assumes cons: "cacheConsistent ty s" and ne: "cacheOf ty s \<noteq> []"
  shows "\<exists>old. getOldestCacheKey ty s = Some old \<and> old \<noteq> [] \<and>
           old \<in> fst ` set (cacheOf ty s) \<and>
           (\<forall>k \<in> fst ` set (cacheOf ty s). timestampOf ty s old \<le> timestampOf ty s k)"
proof -
  let ?p = "typeName ty @ ''_''"
  let ?ts = "cache_timestamps s"
  let ?res = "fold (oldestStep ty) ?ts (None, None)"
  have dist: "distinct (map fst ?ts)"
    and to_cache: "\<And>tk. tk \<in> fst ` set ?ts \<Longrightarrow> prefix ?p tk
                 \<Longrightarrow> drop (length ?p) tk \<in> fst ` set (cacheOf ty s)"
    and to_stamp: "\<And>k. k \<in> fst ` set (cacheOf ty s) \<Longrightarrow> timestampKey ty k \<in> fst ` set ?ts"
    and nonempty: "[] \<notin> fst ` set (cacheOf ty s)"
    using cons by (auto simp: cacheConsistent_def keysMirror_def)
  have stamp: "timestampOf ty s k = t" if "(timestampKey ty k, t) \<in> set ?ts" for k t
    using that dist by (simp add: timestampOf_def)
  have bound: "\<exists>r. snd ?res = Some r \<and> r \<le> timestampOf ty s k"
    if "k \<in> fst ` set (cacheOf ty s)" for k
  proof -
    from to_stamp[OF that] obtain t where e: "(timestampKey ty k, t) \<in> set ?ts" by auto
    have "prefix ?p (fst (timestampKey ty k, t))" by (simp add: prefix_timestampKey)
    with oldest_fold_min(1)[of ?ts ty "(None, None)"] e
    obtain r where "snd ?res = Some r" "r \<le> snd (timestampKey ty k, t)" by blast
    then show ?thesis using stamp[OF e] by simp
  qed
  from ne obtain k0 where k0: "k0 \<in> fst ` set (cacheOf ty s)"
    by (cases "cacheOf ty s") auto
  from bound[OF k0] have "?res \<noteq> (None, None)" by auto
  with oldest_fold_min(3)[of ty ?ts "(None, None)"]
  obtain e where e: "e \<in> set ?ts" "prefix ?p (fst e)"
    and res: "?res = (Some (drop (length ?p) (fst e)), Some (snd e))" by blast
  let ?old = "drop (length ?p) (fst e)"
  have old_in: "?old \<in> fst ` set (cacheOf ty s)"
    using to_cache[of "fst e"] e by auto
  have "fst e = timestampKey ty ?old"
    using prefixed_is_timestampKey[OF e(2)] .
  then have "(timestampKey ty ?old, snd e) \<in> set ?ts"
    using e(1) by (metis prod.collapse)
  then have old_stamp: "timestampOf ty s ?old = snd e" by (rule stamp)
  have "\<forall>k \<in> fst ` set (cacheOf ty s). timestampOf ty s ?old \<le> timestampOf ty s k"
    using bound res old_stamp by fastforce
  moreover have "getOldestCacheKey ty s = Some ?old"
    by (simp add: getOldestCacheKey_def res)
  moreover have "?old \<noteq> []" using old_in nonempty by metis
  ultimately show ?thesis using old_in by blast
qed

lemma cacheOf_cacheUpd [simp]: "cacheOf ty (cacheUpd ty f s) = f (cacheOf ty s)"
  by (cases ty) simp_all

lemma cacheOf_timestamps_update [simp]:
  "cacheOf ty (s\<lparr>cache_timestamps := ts\<rparr>) = cacheOf ty s"
  by (cases ty) simp_all

lemma timestamps_cacheUpd [simp]: "cache_timestamps (cacheUpd ty f s) = cache_timestamps s"
  by (cases ty) simp_all

lemma config_cacheUpd [simp]:
  "cfg_enabled (cacheUpd ty f s) = cfg_enabled s"
  "cfg_maxSize (cacheUpd ty f s) = cfg_maxSize s"
  "cfg_ttl (cacheUpd ty f s) = cfg_ttl s"
  by (cases ty; simp)+

text \<open>Consistency holds initially and is kept by every cache operation.\<close>

lemma keys_update: "fst ` set (AList.update k v al) = insert k (fst ` set al)"
  by (simp add: AList.dom_update)

lemma keys_delete: "fst ` set (AList.delete k al) = fst ` set al - {k}"
proof -
  have "set (map fst (AList.delete k al)) = set (map fst al) - {k}"
    by (simp only: AList.delete_keys set_removeAll)
  then show ?thesis by simp
qed

lemma cacheOf_cacheUpd_other:
  "cacheOf ty (cacheUpd ty' f s) = (if ty = ty' then f (cacheOf ty s) else cacheOf ty s)"
  by (cases ty; cases ty') simp_all

lemma cacheOf_stat_update [simp]:
  "cacheOf ty (stat_cachedOperations_update f s) = cacheOf ty s"
  by (cases ty) simp_all

lemma keysMirror_insert_same:
  "keysMirror ty K T \<Longrightarrow> key \<noteq> [] \<Longrightarrow> keysMirror ty (insert key K) (insert (timestampKey ty key) T)"
  unfolding keysMirror_def
  by (auto simp: drop_timestampKey simp del: typeName.simps length_append append.simps)

lemma keysMirror_insert_other:
  "keysMirror ty K T \<Longrightarrow> ty \<noteq> ty' \<Longrightarrow> keysMirror ty K (insert (timestampKey ty' key) T)"
  unfolding keysMirror_def
  by (auto simp: prefix_timestampKey simp del: typeName.simps length_append append.simps)

lemma keysMirror_remove_same:
  assumes "keysMirror ty K T"
  shows "keysMirror ty (K - {old}) (T - {timestampKey ty old})"
proof -
  have "drop (length (typeName ty @ ''_'')) tk \<noteq> old"
    if "prefix (typeName ty @ ''_'') tk" "tk \<noteq> timestampKey ty old" for tk
    using prefixed_is_timestampKey[OF that(1)] that(2) by auto
  then show ?thesis
    using assms unfolding keysMirror_def
    by (auto simp: timestampKey_inject simp del: typeName.simps length_append append.simps)
qed

lemma keysMirror_remove_other:
  "keysMirror ty K T \<Longrightarrow> ty \<noteq> ty' \<Longrightarrow> keysMirror ty K (T - {timestampKey ty' old})"
  unfolding keysMirror_def
  by (auto simp: timestampKey_inject simp del: typeName.simps length_append append.simps)

lemma consistent_insert:
  assumes "cacheConsistent ty s" and "key \<noteq> []"
  shows "cacheConsistent ty
           ((cacheUpd ty' (AList.update key val) s)
              \<lparr> cache_timestamps :=
                   AList.update (timestampKey ty' key) now (cache_timestamps s) \<rparr>)"
  using assms keysMirror_insert_same keysMirror_insert_other
  unfolding cacheConsistent_def
  by (auto simp: cacheOf_cacheUpd_other keys_update AList.distinct_update)

lemma consistent_remove:
  assumes "cacheConsistent ty s"
  shows "cacheConsistent ty
           ((cacheUpd ty' (AList.delete old) s)
              \<lparr> cache_timestamps :=
                   AList.delete (timestampKey ty' old) (cache_timestamps s) \<rparr>)"
  using assms keysMirror_remove_same keysMirror_remove_other
  unfolding cacheConsistent_def
  by (auto simp: cacheOf_cacheUpd_other keys_delete AList.distinct_delete)

lemma consistent_new:
  "cacheConsistent ty (configureCache m t e newPerformanceOptimizer)"
  by (cases ty) (simp_all add: cacheConsistent_def keysMirror_def configureCache_def
        newPerformanceOptimizer_def split: option.splits)

lemma consistent_setCache:
  assumes "cacheConsistent ty s"
  shows "cacheConsistent ty (setCache key val ty' now s)"
proof (cases "\<not> cfg_enabled s \<or> key = []")
  case True
  then show ?thesis using assms by (auto simp: setCache_def)
next
  case False
  define s1 where "s1 =
     (if int (length (cacheOf ty' s)) \<ge> cfg_maxSize s then
        (case getOldestCacheKey ty' s of
           None \<Rightarrow> s
         | Some oldestKey \<Rightarrow>
             if oldestKey \<noteq> [] then
               (cacheUpd ty' (AList.delete oldestKey) s)
                 \<lparr> cache_timestamps :=
                     AList.delete (timestampKey ty' oldestKey) (cache_timestamps s) \<rparr>
             else s)
      else s)"
  have "cacheConsistent ty s1"
    unfolding s1_def using assms consistent_remove[OF assms]
    by (simp split: option.splits)
  from consistent_insert[OF this, where key=key and ty'=ty' and val=val and now=now] False
  have "cacheConsistent ty
           ((cacheUpd ty' (AList.update key val) s1)
              \<lparr> cache_timestamps :=
                   AList.update (timestampKey ty' key) now (cache_timestamps s1) \<rparr>)"
    by simp
  moreover have "setCache key val ty' now s =
      (cacheUpd ty' (AList.update key val) s1)
              \<lparr> cache_timestamps :=
                   AList.update (timestampKey ty' key) now (cache_timestamps s1) \<rparr>"
    using False by (simp add: setCache_def Let_def s1_def)
  ultimately show ?thesis by simp
qed

lemma consistent_getCache:
  assumes "cacheConsistent ty s"
  shows "cacheConsistent ty (snd (getCache key ty' now s))"
proof -
  have "timestampKey ty' key \<in> fst ` set (cache_timestamps s)"
    if "ty = ty'" "map_has (cacheOf ty' s) key"
  proof -
    from that(2) have "key \<in> fst ` set (cacheOf ty' s)"
      by (auto simp: map_has_def dest: map_of_SomeD intro: rev_image_eqI)
    then show ?thesis
      using assms that(1) by (auto simp: cacheConsistent_def keysMirror_def)
  qed
  then have "cacheConsistent ty
               (s \<lparr> cache_timestamps :=
                      AList.update (timestampKey ty' key) now (cache_timestamps s),
                    stat_cachedOperations := stat_cachedOperations s + 1 \<rparr>)"
    if "map_has (cacheOf ty' s) key"
    using assms that keysMirror_insert_other[of ty _ _ ty' key]
    by (cases "ty = ty'")
       (auto simp: cacheConsistent_def keys_update AList.distinct_update insert_absorb)
  then show ?thesis
    using assms consistent_remove[OF assms, of ty' key]
    by (auto simp: getCache_def Let_def split: option.splits)
qed

lemma setCache_config [simp]:
  "cfg_enabled (setCache key val ty now s) = cfg_enabled s"
  "cfg_maxSize (setCache key val ty now s) = cfg_maxSize s"
  "cfg_ttl (setCache key val ty now s) = cfg_ttl s"
  by (simp_all add: setCache_def Let_def split: option.splits)

lemma setCache_not_full:
  assumes "cfg_enabled s" and "key \<noteq> []"
    and "int (length (cacheOf ty s)) < cfg_maxSize s"
  shows "cacheOf ty (setCache key val ty now s) = AList.update key val (cacheOf ty s)"
    and "cache_timestamps (setCache key val ty now s)
           = AList.update (timestampKey ty key) now (cache_timestamps s)"
  using assms by (simp_all add: setCache_def Let_def)

lemma setCache_full:
  assumes "cfg_enabled s" and "key \<noteq> []"
    and "int (length (cacheOf ty s)) \<ge> cfg_maxSize s"
    and "getOldestCacheKey ty s = Some old" and "old \<noteq> []"
  shows "cacheOf ty (setCache key val ty now s)
           = AList.update key val (AList.delete old (cacheOf ty s))"
    and "cache_timestamps (setCache key val ty now s)
           = AList.update (timestampKey ty key) now
               (AList.delete (timestampKey ty old) (cache_timestamps s))"
  using assms by (simp_all add: setCache_def Let_def)

lemma setCache_full_evicts_oldest:
  assumes "cfg_enabled s" and "key \<noteq> []"
    and "cacheConsistent ty s" and "cacheOf ty s \<noteq> []"
    and "int (length (cacheOf ty s)) \<ge> cfg_maxSize s"
  shows "\<exists>old. getOldestCacheKey ty s = Some old \<and>
           old \<in> fst ` set (cacheOf ty s) \<and>
           (\<forall>k \<in> fst ` set (cacheOf ty s). timestampOf ty s old \<le> timestampOf ty s k) \<and>
           cacheOf ty (setCache key val ty now s)
             = AList.update key val (AList.delete old (cacheOf ty s))"
proof -
  from getOldestCacheKey_oldest[OF assms(3,4)]
  obtain old where old: "getOldestCacheKey ty s = Some old" "old \<noteq> []"
      "old \<in> fst ` set (cacheOf ty s)"
      "\<forall>k \<in> fst ` set (cacheOf ty s). timestampOf ty s old \<le> timestampOf ty s k"
    by blast
  from setCache_full(1)[OF assms(1,2,5) old(1,2)] old show ?thesis by blast
qed

text \<open>Three inserts of distinct keys into a fresh cache of size two.\<close>

lemma three_inserts_evict_first:
  fixes k1 k2 k3 :: string and v1 v2 v3 :: 'v and t1 t2 t3 t4 :: int and ty :: cacheType
  assumes "distinct [k1, k2, k3]" and "k1 \<noteq> []" and "k2 \<noteq> []" and "k3 \<noteq> []"
    and "t1 \<le> t2"
  shows "cacheOf ty (setCache k3 v3 ty t3 (setCache k2 v2 ty t2 (setCache k1 v1 ty t1
            (configureCache (Some 2) None None newPerformanceOptimizer))))
           = [(k2, v2), (k3, v3)]"
    and "fst (getCache k1 ty t4
           (setCache k3 v3 ty t3 (setCache k2 v2 ty t2 (setCache k1 v1 ty t1
              (configureCache (Some 2) None None newPerformanceOptimizer))))) = None"
proof -
  define s0 where "s0 = configureCache (Some 2) None None (newPerformanceOptimizer :: 'v perfOpt)"
  define s1 where "s1 = setCache k1 v1 ty t1 s0"
  define s2 where "s2 = setCache k2 v2 ty t2 s1"
  define s3 where "s3 = setCache k3 v3 ty t3 s2"
  have c0: "cacheOf ty s0 = []" "cache_timestamps s0 = []"
           "cfg_enabled s0" "cfg_maxSize s0 = 2"
    unfolding s0_def
    by (cases ty; simp add: configureCache_def newPerformanceOptimizer_def)+
  have c1: "cacheOf ty s1 = [(k1, v1)]"
           "cache_timestamps s1 = [(timestampKey ty k1, t1)]"
           "cfg_enabled s1" "cfg_maxSize s1 = 2"
    unfolding s1_def using assms(2) c0
    by (simp_all add: setCache_not_full)
  have c2: "cacheOf ty s2 = [(k1, v1), (k2, v2)]"
           "cache_timestamps s2 = [(timestampKey ty k1, t1), (timestampKey ty k2, t2)]"
           "cfg_enabled s2" "cfg_maxSize s2 = 2"
    unfolding s2_def using assms(1,3) c1
    by (simp_all add: setCache_not_full timestampKey_inject)
  have old: "getOldestCacheKey ty s2 = Some k1"
    using assms(5)
    by (simp add: getOldestCacheKey_def c2 oldestStep_def Let_def
          prefix_timestampKey drop_Suc_timestampKey)
  have c3: "cacheOf ty s3 = [(k2, v2), (k3, v3)]"
    unfolding s3_def using assms(1,2,4) c2 old
    by (auto simp: setCache_full)
  then have "fst (getCache k1 ty t4 s3) = None"
    using assms(1) by (simp add: getCache_def map_has_def)
  with c3 show
    "cacheOf ty (setCache k3 v3 ty t3 (setCache k2 v2 ty t2 (setCache k1 v1 ty t1
            (configureCache (Some 2) None None newPerformanceOptimizer))))
           = [(k2, v2), (k3, v3)]"
    "fst (getCache k1 ty t4
           (setCache k3 v3 ty t3 (setCache k2 v2 ty t2 (setCache k1 v1 ty t1
              (configureCache (Some 2) None None newPerformanceOptimizer))))) = None"
    by (simp_all add: s0_def s1_def s2_def s3_def)
qed

text \<open>
  Claim C7. With \<open>maxSize = 2\<close>, inserting three entries with distinct keys into a fresh
  cache evicts the first-inserted key, whose timestamp is the oldest as long as the clock
  did not run backwards between the first two inserts: a read of the first key returns
  \<open>null\<close> and the other two entries remain. In general, an insert into a consistent,
  non-empty cache that holds at least \<open>maxSize\<close> entries removes exactly one entry of
  that cache type, one whose timestamp is minimal, before it stores the new entry.
\<close>

theorem cache_insert_evicts_oldest:
  fixes k1 k2 k3 key :: string and v1 v2 v3 val :: 'v and t1 t2 t3 t4 now :: int
    and ty ty' :: cacheType and s :: "'v perfOpt"
  shows
  "(distinct [k1, k2, k3] \<and> k1 \<noteq> [] \<and> k2 \<noteq> [] \<and> k3 \<noteq> [] \<and> t1 \<le> t2 \<longrightarrow>
      fst (getCache k1 ty t4
             (setCache k3 v3 ty t3 (setCache k2 v2 ty t2 (setCache k1 v1 ty t1
                (configureCache (Some 2) None None newPerformanceOptimizer))))) = None \<and>
      cacheOf ty (setCache k3 v3 ty t3 (setCache k2 v2 ty t2 (setCache k1 v1 ty t1
                (configureCache (Some 2) None None newPerformanceOptimizer))))
        = [(k2, v2), (k3, v3)]) \<and>
   (cfg_enabled s \<and> key \<noteq> [] \<and> cacheConsistent ty' s \<and> cacheOf ty' s \<noteq> [] \<and>
    int (length (cacheOf ty' s)) \<ge> cfg_maxSize s \<longrightarrow>
      (\<exists>old. old \<in> fst ` set (cacheOf ty' s) \<and>
         (\<forall>k \<in> fst ` set (cacheOf ty' s). timestampOf ty' s old \<le> timestampOf ty' s k) \<and>
         cacheOf ty' (setCache key val ty' now s)
           = AList.update key val (AList.delete old (cacheOf ty' s))))"
proof (intro conjI impI)
  assume "distinct [k1, k2, k3] \<and> k1 \<noteq> [] \<and> k2 \<noteq> [] \<and> k3 \<noteq> [] \<and> t1 \<le> t2"
  then have h: "distinct [k1, k2, k3]" "k1 \<noteq> []" "k2 \<noteq> []" "k3 \<noteq> []" "t1 \<le> t2"
    by simp_all
  show "fst (getCache k1 ty t4
             (setCache k3 v3 ty t3 (setCache k2 v2 ty t2 (setCache k1 v1 ty t1
                (configureCache (Some 2) None None newPerformanceOptimizer))))) = None"
    by (rule three_inserts_evict_first(2)[OF h])
  show "cacheOf ty (setCache k3 v3 ty t3 (setCache k2 v2 ty t2 (setCache k1 v1 ty t1
                (configureCache (Some 2) None None newPerformanceOptimizer))))
        = [(k2, v2), (k3, v3)]"
    by (rule three_inserts_evict_first(1)[OF h])
next
  assume "cfg_enabled s \<and> key \<noteq> [] \<and> cacheConsistent ty' s \<and> cacheOf ty' s \<noteq> [] \<and>
    int (length (cacheOf ty' s)) \<ge> cfg_maxSize s"
  then have h: "cfg_enabled s" "key \<noteq> []" "cacheConsistent ty' s" "cacheOf ty' s \<noteq> []"
      "int (length (cacheOf ty' s)) \<ge> cfg_maxSize s"
    by simp_all
  from setCache_full_evicts_oldest[OF h, of val now]
  show "\<exists>old. old \<in> fst ` set (cacheOf ty' s) \<and>
         (\<forall>k \<in> fst ` set (cacheOf ty' s). timestampOf ty' s old \<le> timestampOf ty' s k) \<and>
         cacheOf ty' (setCache key val ty' now s)
           = AList.update key val (AList.delete old (cacheOf ty' s))"
    by blast
qed

theorem cache_insert_evicts_oldest_witness:
  "distinct [''a'', ''b'', ''c''] \<and> (10::int) \<le> 20 \<and>
   fst (getCache ''a'' Processed 40 (setCache ''c'' 3 Processed 30
      (setCache ''b'' 2 Processed 20 (setCache ''a'' (1::nat) Processed 10
        (configureCache (Some 2) None None newPerformanceOptimizer))))) = None \<and>
   cfg_enabled (setCache ''b'' 2 Processed 20 (setCache ''a'' (1::nat) Processed 10
        (configureCache (Some 2) None None newPerformanceOptimizer))) \<and> cacheConsistent Processed (setCache ''b'' 2 Processed 20 (setCache ''a'' (1::nat) Processed 10
        (configureCache (Some 2) None None newPerformanceOptimizer))) \<and>
   int (length (cacheOf Processed (setCache ''b'' 2 Processed 20 (setCache ''a'' (1::nat) Processed 10
        (configureCache (Some 2) None None newPerformanceOptimizer))))) \<ge> cfg_maxSize (setCache ''b'' 2 Processed 20 (setCache ''a'' (1::nat) Processed 10
        (configureCache (Some 2) None None newPerformanceOptimizer))) \<and>
   (\<exists>old. old \<in> fst ` set (cacheOf Processed (setCache ''b'' 2 Processed 20 (setCache ''a'' (1::nat) Processed 10
        (configureCache (Some 2) None None newPerformanceOptimizer)))) \<and>
      (\<forall>k \<in> fst ` set (cacheOf Processed (setCache ''b'' 2 Processed 20 (setCache ''a'' (1::nat) Processed 10
        (configureCache (Some 2) None None newPerformanceOptimizer)))).
          timestampOf Processed (setCache ''b'' 2 Processed 20 (setCache ''a'' (1::nat) Processed 10
        (configureCache (Some 2) None None newPerformanceOptimizer))) old \<le> timestampOf Processed (setCache ''b'' 2 Processed 20 (setCache ''a'' (1::nat) Processed 10
        (configureCache (Some 2) None None newPerformanceOptimizer))) k) \<and>
      cacheOf Processed (setCache ''c'' 3 Processed 30 (setCache ''b'' 2 Processed 20 (setCache ''a'' (1::nat) Processed 10
        (configureCache (Some 2) None None newPerformanceOptimizer))))
        = AList.update ''c'' 3 (AList.delete old (cacheOf Processed (setCache ''b'' 2 Processed 20 (setCache ''a'' (1::nat) Processed 10
        (configureCache (Some 2) None None newPerformanceOptimizer))))))"
proof -
  define s2 :: "nat perfOpt" where "s2 = (setCache ''b'' 2 Processed 20 (setCache ''a'' 1 Processed 10
        (configureCache (Some 2) None None newPerformanceOptimizer)))"
  have d: "distinct [''a'', ''b'', ''c'']" by simp
  have en: "cfg_enabled s2" and mx: "cfg_maxSize s2 = 2"
    by (simp_all add: s2_def configureCache_def newPerformanceOptimizer_def)
  have cons: "cacheConsistent Processed s2"
    unfolding s2_def by (intro consistent_setCache consistent_new)
  have c: "cache_processed s2 = [(''a'', 1), (''b'', 2)]"
    by (simp add: s2_def setCache_def configureCache_def newPerformanceOptimizer_def
          getOldestCacheKey_def)
  have full: "int (length (cacheOf Processed s2)) \<ge> cfg_maxSize s2"
    by (simp add: c mx)
  have ne: "cacheOf Processed s2 \<noteq> []" by (simp add: c)
  note inst = cache_insert_evicts_oldest
              [of "''a''" "''b''" "''c''" 10 20 Processed 40 3 30 2 1 s2 "''c''" Processed 3 30]
  from inst d en cons full ne show ?thesis
    unfolding s2_def[symmetric] by auto
qed

section \<open>The scheduler and a failing task\<close>

lemma processNextTask_keeps [simp]:
  "invoked (processNextTask s) = invoked s"
  "callbacks (processNextTask s) = callbacks s"
  by (simp_all add: processNextTask_def Let_def split: list.splits)

text \<open>
  A message without a task id, which is every message the worker posts, reaches no
  callback and removes none.
\<close>

lemma handleWorkerMessage_without_id:
  assumes "m_taskId msg = None"
  shows "invoked (handleWorkerMessage msg s) = invoked s"
    and "callbacks (handleWorkerMessage msg s) = callbacks s"
  using assms by (simp_all add: handleWorkerMessage_def Let_def)

lemma worker_failure_has_no_id:
  "\<forall>msg \<in> set (workerOnMessage run task). m_error msg \<noteq> None \<longrightarrow> m_taskId msg = None"
  if "\<And>msgs. run task = Inr msgs \<Longrightarrow> \<forall>msg \<in> set msgs. m_taskId msg = None"
  using that
  by (auto simp: workerOnMessage_def failureMessage_def split: sum.splits)

text \<open>A failure with a non-empty error text still frees the scheduler for the next task.\<close>

lemma handleWorkerMessage_failure_dispatches_next:
  assumes "m_taskId msg = None" and "m_error msg = Some err" and "err \<noteq> []"
    and "taskQueue s = t # rest" and "schedulerCacheKey (t_taskType t) (t_data t) = None"
  shows "taskQueue (handleWorkerMessage msg s) = rest"
    and "posted (handleWorkerMessage msg s)
           = posted s @ [(t_taskType t, t_data t, t_taskId t)]"
    and "isProcessing (handleWorkerMessage msg s)"
  using assms
  by (simp_all add: handleWorkerMessage_def processNextTask_def truthyString_def Let_def)

text \<open>
  Had a failure message carried the id of a registered callback, the callback would be
  called with \<open>success: Boolean\<close>; the promise-settling closures take that for success.
\<close>

lemma handleWorkerMessage_error_with_id:
  assumes "m_taskId msg = Some taskId" and "taskId \<noteq> 0"
    and "map_of (callbacks s) taskId = Some callback"
    and "m_error msg = Some err" and "err \<noteq> []"
  shows "\<exists>resp. invoked (handleWorkerMessage msg s) = invoked s @ [(callback, resp)] \<and>
           promiseSettlement resp = Resolved None"
  using assms
  by (simp add: handleWorkerMessage_def truthyString_def Let_def)

text \<open>
  Claim C8, evaluated on the code. Two tasks are added to a fresh scheduler; the first has
  a type the worker does not know, so the worker answers with its failure message. After
  the scheduler has handled that message, no callback has been invoked, the failing
  task's callback is still registered, and the second task has been posted to the worker.
\<close>

theorem worker_failure_not_surfaced:
  "workerOnMessage run ''sharpen''
     = [failureMessage ''Unknown task: sharpen'' :: unit workerMessage] \<and>
   invoked
     (handleWorkerMessage (failureMessage ''Unknown task: sharpen'' :: unit workerMessage)
        (snd (addTask ''applyMedianFilter''
                \<lparr> td_imageData = Some [0, 0, 0, 255], td_width = 1, td_height = 1,
                  td_params = () \<rparr> (PromiseCallback 2)
           (snd (addTask ''sharpen''
                \<lparr> td_imageData = Some [0, 0, 0, 255], td_width = 1, td_height = 1,
                  td_params = () \<rparr> (PromiseCallback 1)
              newImageProcessor))))) = [] \<and>
   callbacks
     (handleWorkerMessage (failureMessage ''Unknown task: sharpen'' :: unit workerMessage)
        (snd (addTask ''applyMedianFilter''
                \<lparr> td_imageData = Some [0, 0, 0, 255], td_width = 1, td_height = 1,
                  td_params = () \<rparr> (PromiseCallback 2)
           (snd (addTask ''sharpen''
                \<lparr> td_imageData = Some [0, 0, 0, 255], td_width = 1, td_height = 1,
                  td_params = () \<rparr> (PromiseCallback 1)
              newImageProcessor)))))
     = [(1, PromiseCallback 1), (2, PromiseCallback 2)] \<and>
   map (\<lambda>p. (fst p, snd (snd p)))
     (posted
       (handleWorkerMessage (failureMessage ''Unknown task: sharpen'' :: unit workerMessage)
        (snd (addTask ''applyMedianFilter''
                \<lparr> td_imageData = Some [0, 0, 0, 255], td_width = 1, td_height = 1,
                  td_params = () \<rparr> (PromiseCallback 2)
           (snd (addTask ''sharpen''
                \<lparr> td_imageData = Some [0, 0, 0, 255], td_width = 1, td_height = 1,
                  td_params = () \<rparr> (PromiseCallback 1)
              newImageProcessor))))))
     = [(''sharpen'', 1), (''applyMedianFilter'', 2)]"
  by (simp add: workerOnMessage_def knownTasks_def failureMessage_def addTask_def
        processNextTask_def handleWorkerMessage_def newImageProcessor_def
        schedulerCacheKey_def truthyString_def truthyBool_def Let_def)

section \<open>Histogram sums\<close>

lemma byte_bound: "unat (w :: 8 word) \<le> 255"
  using unsigned_less[of w, where 'a=nat] by simp

lemma byte_bound_real: "real (unat (w :: 8 word)) \<le> 255"
proof -
  have "real (unat w) \<le> real 255" using byte_bound by (rule of_nat_mono)
  then show ?thesis by simp
qed

lemma sum_list_map_update_same:
  "i < length h \<Longrightarrow> f v = f (h ! i) \<Longrightarrow> sum_list (map f (h[i := v])) = sum_list (map f h)"
  by (induction h arbitrary: i) (auto split: nat.splits)

lemma sum_list_map_update_Suc:
  "i < length h \<Longrightarrow> f v = f (h ! i) + (1::nat)
     \<Longrightarrow> sum_list (map f (h[i := v])) = sum_list (map f h) + 1"
  by (induction h arbitrary: i) (auto split: nat.splits)

lemma weighted_mean_range:
  fixes x y z :: real
  assumes "0 \<le> x" "x \<le> 255" "0 \<le> y" "y \<le> 255" "0 \<le> z" "z \<le> 255"
  shows "0 \<le> mathRound (0.299 * x + 0.587 * y + 0.114 * z)"
    and "mathRound (0.299 * x + 0.587 * y + 0.114 * z) \<le> 255"
    and "0 \<le> mathRound (0.2126 * x + 0.7152 * y + 0.0722 * z)"
    and "mathRound (0.2126 * x + 0.7152 * y + 0.0722 * z) \<le> 255"
  using assms unfolding mathRound_def
  by (simp_all add: floor_le_iff le_floor_iff; linarith)+

lemma luminance601_range: "0 \<le> luminance601 r g b \<and> luminance601 r g b \<le> 255"
  unfolding luminance601_def
  using weighted_mean_range(1,2)[OF of_nat_0_le_iff byte_bound_real[of r]
          of_nat_0_le_iff byte_bound_real[of g] of_nat_0_le_iff byte_bound_real[of b]]
  by blast

lemma luminance709_range: "0 \<le> luminance709 r g b \<and> luminance709 r g b \<le> 255"
  unfolding luminance709_def
  using weighted_mean_range(3,4)[OF of_nat_0_le_iff byte_bound_real[of r]
          of_nat_0_le_iff byte_bound_real[of g] of_nat_0_le_iff byte_bound_real[of b]]
  by blast

lemma countPixel_sums:
  assumes "length h = 256"
  shows "\<exists>h'. countPixel h r g b = Inr h' \<and> length h' = 256 \<and>
           sum_r h' = sum_r h + 1 \<and> sum_g h' = sum_g h + 1 \<and>
           sum_b h' = sum_b h + 1 \<and> sum_l h' = sum_l h + 1"
proof -
  have idx: "unat r < length h" "unat g < length h" "unat b < length h"
    using byte_bound[of r] byte_bound[of g] byte_bound[of b] assms by simp_all
  have l: "0 \<le> luminance601 r g b" "nat (luminance601 r g b) < length h"
    using luminance601_range[of r g b] assms by linarith+
  show ?thesis
    using idx l assms
    unfolding countPixel_def Let_def sum_r_def sum_g_def sum_b_def sum_l_def
    by (simp add: sum_list_map_update_same sum_list_map_update_Suc)
qed

lemma histogramLoop_sums:
  assumes "length h = 256" and "length data = 4 * n"
  shows "\<exists>h'. histogramLoop data h = Inr h' \<and> length h' = 256 \<and>
           sum_r h' = sum_r h + n \<and> sum_g h' = sum_g h + n \<and>
           sum_b h' = sum_b h + n \<and> sum_l h' = sum_l h + n"
  using assms
proof (induction data h arbitrary: n rule: histogramLoop.induct)
  case (1 r g b a rest h)
  from countPixel_sums[OF "1.prems"(1), of r g b]
  obtain h1 where h1: "countPixel h r g b = Inr h1" "length h1 = 256"
      "sum_r h1 = sum_r h + 1" "sum_g h1 = sum_g h + 1"
      "sum_b h1 = sum_b h + 1" "sum_l h1 = sum_l h + 1"
    by blast
  from "1.prems"(2) obtain m where m: "n = Suc m" "length rest = 4 * m"
    by (cases n) auto
  from "1.IH"[OF h1(1) h1(2) m(2)] h1 m show ?case by auto
next
  case (2 r g b h)
  then show ?case by (simp; arith)
next
  case (3 h)
  then show ?case by simp
next
  case (4 r g h)
  then show ?case by (simp; arith)
next
  case (5 r h)
  then show ?case by (simp; arith)
qed


lemma hash_one_pixel: "calculateDataHash [0, 0, 0, 255] = ''0''"
  by (simp add: calculateDataHash_def hashStep_def toInt32_def toString36_def digit36_def)

lemma hash_two_pixels: "calculateDataHash [0, 0, 0, 255, 0, 0, 0, 255] = ''0''"
  by (simp add: calculateDataHash_def hashStep_def toInt32_def toString36_def digit36_def
       numeral_2_eq_2)

lemma member_le_sum_list_nat: "i < length (c :: nat list) \<Longrightarrow> c ! i \<le> sum_list c"
  by (induction c arbitrary: i) (auto simp: less_Suc_eq_0_disj trans_le_add2)

lemma incrementUint32_sum:
  assumes "i < length c" and "sum_list c + 1 < 2 ^ 32"
  shows "sum_list (incrementUint32 c i) = sum_list c + 1"
    and "length (incrementUint32 c i) = length c"
proof -
  have "c ! i + 1 < 2 ^ 32"
    using member_le_sum_list_nat[OF assms(1)] assms(2) by linarith
  then have "(c ! i + 1) mod 2 ^ 32 = c ! i + 1" by simp
  then show "sum_list (incrementUint32 c i) = sum_list c + 1"
    using assms(1) sum_list_map_update_Suc[of i c id "c ! i + 1"]
    by (simp add: incrementUint32_def)
  show "length (incrementUint32 c i) = length c" by (simp add: incrementUint32_def)
qed

lemma countPixelWorker_sums:
  assumes "wellSized h"
    and "sum_list (h_red h) + 1 < 2 ^ 32" and "sum_list (h_green h) + 1 < 2 ^ 32"
    and "sum_list (h_blue h) + 1 < 2 ^ 32" and "sum_list (h_luminance h) + 1 < 2 ^ 32"
  shows "wellSized (countPixelWorker h r g b)"
    and "sum_list (h_red (countPixelWorker h r g b)) = sum_list (h_red h) + 1"
    and "sum_list (h_green (countPixelWorker h r g b)) = sum_list (h_green h) + 1"
    and "sum_list (h_blue (countPixelWorker h r g b)) = sum_list (h_blue h) + 1"
    and "sum_list (h_luminance (countPixelWorker h r g b)) = sum_list (h_luminance h) + 1"
proof -
  have idx: "unat r < 256" "unat g < 256" "unat b < 256"
    using byte_bound[of r] byte_bound[of g] byte_bound[of b] by simp_all
  have l: "0 \<le> luminance709 r g b" "nat (luminance709 r g b) < 256"
    using luminance709_range[of r g b] by linarith+
  show "wellSized (countPixelWorker h r g b)"
    using assms(1) by (simp add: wellSized_def countPixelWorker_def Let_def incrementUint32_def)
  show "sum_list (h_red (countPixelWorker h r g b)) = sum_list (h_red h) + 1"
    using assms idx by (simp add: wellSized_def countPixelWorker_def Let_def incrementUint32_sum)
  show "sum_list (h_green (countPixelWorker h r g b)) = sum_list (h_green h) + 1"
    using assms idx by (simp add: wellSized_def countPixelWorker_def Let_def incrementUint32_sum)
  show "sum_list (h_blue (countPixelWorker h r g b)) = sum_list (h_blue h) + 1"
    using assms idx by (simp add: wellSized_def countPixelWorker_def Let_def incrementUint32_sum)
  show "sum_list (h_luminance (countPixelWorker h r g b)) = sum_list (h_luminance h) + 1"
    using assms l by (simp add: wellSized_def countPixelWorker_def Let_def incrementUint32_sum)
qed

lemma opaquePixels_le: "length data = 4 * n \<Longrightarrow> opaquePixels data \<le> n"
proof (induction data arbitrary: n rule: opaquePixels.induct)
  case (1 r g b a rest)
  then obtain m where "n = Suc m" "length rest = 4 * m" by (cases n) auto
  with 1 show ?case by auto
qed auto

lemma workerHistogramLoop_sums:
  assumes "wellSized h" and "length data = 4 * n"
    and "sum_list (h_red h) + n < 2 ^ 32" and "sum_list (h_green h) + n < 2 ^ 32"
    and "sum_list (h_blue h) + n < 2 ^ 32" and "sum_list (h_luminance h) + n < 2 ^ 32"
  shows "wellSized (workerHistogramLoop data h) \<and>
    sum_list (h_red (workerHistogramLoop data h)) = sum_list (h_red h) + opaquePixels data \<and>
    sum_list (h_green (workerHistogramLoop data h)) = sum_list (h_green h) + opaquePixels data \<and>
    sum_list (h_blue (workerHistogramLoop data h)) = sum_list (h_blue h) + opaquePixels data \<and>
    sum_list (h_luminance (workerHistogramLoop data h))
      = sum_list (h_luminance h) + opaquePixels data"
  using assms
proof (induction data h arbitrary: n rule: workerHistogramLoop.induct)
  case (1 r g b a rest h)
  from "1.prems"(2) obtain m where m: "n = Suc m" "length rest = 4 * m"
    by (cases n) auto
  show ?case
  proof (cases "a < 128")
    case True
    with "1.IH"(1)[OF True "1.prems"(1) m(2)] "1.prems" m show ?thesis by simp
  next
    case False
    have b: "sum_list (h_red h) + 1 < 2 ^ 32" "sum_list (h_green h) + 1 < 2 ^ 32"
        "sum_list (h_blue h) + 1 < 2 ^ 32" "sum_list (h_luminance h) + 1 < 2 ^ 32"
      using "1.prems" m by simp_all
    note step = countPixelWorker_sums[OF "1.prems"(1) b, of r g b]
    from "1.IH"(2)[OF False step(1) m(2)] step "1.prems" m False
    show ?thesis by simp
  qed
next
  case (2 r g b h)
  then show ?case by (simp; arith)
next
  case (3 r g h)
  then show ?case by (simp; arith)
next
  case (4 r h)
  then show ?case by (simp; arith)
next
  case (5 h)
  then show ?case by simp
qed

lemma opaquePixels_all:
  assumes "length data = 4 * n" and "\<forall>i < n. 128 \<le> data ! (4 * i + 3)"
  shows "opaquePixels data = n"
  using assms
proof (induction data arbitrary: n rule: opaquePixels.induct)
  case (1 r g b a rest)
  then obtain m where m: "n = Suc m" "length rest = 4 * m" by (cases n) auto
  have "128 \<le> (r # g # b # a # rest) ! (4 * 0 + 3)"
    using "1.prems"(2) m(1) by blast
  then have a: "\<not> a < 128" by simp
  have "\<forall>i < m. 128 \<le> rest ! (4 * i + 3)"
  proof (intro allI impI)
    fix i assume "i < m"
    then have "128 \<le> (r # g # b # a # rest) ! (4 * Suc i + 3)"
      using "1.prems"(2) m(1) by blast
    then show "128 \<le> rest ! (4 * i + 3)" by (simp add: add.commute)
  qed
  from "1.IH"[OF m(2) this] a m show ?case by simp
qed auto

lemma calculateHistogram_miss:
  assumes "length data = 4 * n"
    and "lastImageDataHash st \<noteq> Some (calculateDataHash data) \<or> cachedHistogramData st = None"
  shows "\<exists>h. calculateHistogram (Some data) st
               = Inr (Some h, st \<lparr> stat_calls := stat_calls st + 1,
                                    cachedHistogramData := Some h,
                                    lastImageDataHash := Some (calculateDataHash data) \<rparr>) \<and>
             length h = 256 \<and> sum_r h = n \<and> sum_g h = n \<and> sum_b h = n \<and> sum_l h = n"
proof -
  have e: "length emptyHistogram = 256" "sum_r emptyHistogram = 0" "sum_g emptyHistogram = 0"
      "sum_b emptyHistogram = 0" "sum_l emptyHistogram = 0"
    by (simp_all add: emptyHistogram_def sum_r_def sum_g_def sum_b_def sum_l_def)
  from histogramLoop_sums[OF e(1) assms(1)] e
  obtain h where h: "histogramLoop data emptyHistogram = Inr h" "length h = 256"
      "sum_r h = n" "sum_g h = n" "sum_b h = n" "sum_l h = n"
    by auto
  with assms(2) show ?thesis
    by (auto simp: calculateHistogram_def Let_def)
qed

lemma calculateHistogram_hit:
  assumes "lastImageDataHash st = Some (calculateDataHash data)"
    and "cachedHistogramData st = Some h"
  shows "calculateHistogram (Some data) st = Inr (Some h, st \<lparr> stat_calls := stat_calls st + 1 \<rparr>)"
  using assms by (simp add: calculateHistogram_def Let_def)

lemma computeHistogram_sums:
  assumes "length data = 4 * n" and "n < 2 ^ 32"
  shows "wellSized (computeHistogram data)"
    and "sum_list (h_red (computeHistogram data)) = opaquePixels data"
    and "sum_list (h_green (computeHistogram data)) = opaquePixels data"
    and "sum_list (h_blue (computeHistogram data)) = opaquePixels data"
    and "sum_list (h_luminance (computeHistogram data)) = opaquePixels data"
proof -
  let ?h0 = "\<lparr> h_red = replicate 256 0, h_green = replicate 256 0,
               h_blue = replicate 256 0, h_luminance = replicate 256 0 \<rparr>"
  have w: "wellSized ?h0" by (simp add: wellSized_def)
  have b: "sum_list (h_red ?h0) + n < 2 ^ 32" "sum_list (h_green ?h0) + n < 2 ^ 32"
      "sum_list (h_blue ?h0) + n < 2 ^ 32" "sum_list (h_luminance ?h0) + n < 2 ^ 32"
    using assms(2) by (simp_all add: sum_list_replicate)
  from workerHistogramLoop_sums[OF w assms(1) b]
  show "wellSized (computeHistogram data)"
    and "sum_list (h_red (computeHistogram data)) = opaquePixels data"
    and "sum_list (h_green (computeHistogram data)) = opaquePixels data"
    and "sum_list (h_blue (computeHistogram data)) = opaquePixels data"
    and "sum_list (h_luminance (computeHistogram data)) = opaquePixels data"
    by (simp_all add: computeHistogram_def sum_list_replicate)
qed

text \<open>
  Claim C3 as the code has it. For a buffer of \<open>width * height\<close> pixels:
  \<open>calculateHistogram\<close>, whenever it recomputes (no cached histogram, or a sample hash
  different from the last one), returns 256 bins whose red, green, blue and luminance
  counts each sum to \<open>width * height\<close>; the worker's \<open>computeHistogram\<close> returns four
  arrays of 256 counts, each summing to the number of pixels with alpha at least 128,
  which is \<open>width * height\<close> when no pixel has a smaller alpha.
\<close>

theorem histogram_sums_when_recomputed:
  assumes "length data = 4 * (width * height)"
  shows
   "(lastImageDataHash st \<noteq> Some (calculateDataHash data) \<or> cachedHistogramData st = None
       \<longrightarrow>
       (\<exists>h st'. calculateHistogram (Some data) st = Inr (Some h, st') \<and> length h = 256 \<and>
          sum_r h = width * height \<and> sum_g h = width * height \<and>
          sum_b h = width * height \<and> sum_l h = width * height)) \<and>
    (width * height < 2 ^ 32 \<longrightarrow>
       wellSized (computeHistogram data) \<and>
       sum_list (h_red (computeHistogram data)) = opaquePixels data \<and>
       sum_list (h_green (computeHistogram data)) = opaquePixels data \<and>
       sum_list (h_blue (computeHistogram data)) = opaquePixels data \<and>
       sum_list (h_luminance (computeHistogram data)) = opaquePixels data) \<and>
    ((\<forall>i < width * height. 128 \<le> data ! (4 * i + 3))
       \<longrightarrow> opaquePixels data = width * height)"
  using calculateHistogram_miss[OF assms, of st] computeHistogram_sums[OF assms]
        opaquePixels_all[OF assms]
  by blast

theorem histogram_sums_witness:
  "length [0, 0, 0, 255 :: 8 word] = 4 * (1 * 1) \<and>
   (\<exists>h st'. calculateHistogram (Some [0, 0, 0, 255]) newHistogramCache = Inr (Some h, st') \<and>
        sum_r h = 1 \<and> sum_g h = 1 \<and> sum_b h = 1 \<and> sum_l h = 1) \<and>
   sum_list (h_red (computeHistogram [0, 0, 0, 255])) = 1 \<and>
   sum_list (h_luminance (computeHistogram [0, 0, 0, 255])) = 1"
proof -
  have len: "length [0, 0, 0, 255 :: 8 word] = 4 * (1 * 1)" by simp
  have miss: "cachedHistogramData newHistogramCache = None"
    by (simp add: newHistogramCache_def)
  have op: "opaquePixels [0, 0, 0, 255] = 1" by simp
  from histogram_sums_when_recomputed[OF len, of newHistogramCache] miss op len
  show ?thesis by auto
qed

text \<open>
  The claim as stated fails in two ways. After the histogram of a one-pixel buffer has
  been cached, \<open>calculateHistogram\<close> on a two-pixel buffer with the same sample hash
  returns the cached counts, which sum to 1. The worker skips a transparent pixel, so its
  counts for a one-pixel transparent buffer sum to 0.
\<close>

theorem histogram_sum_counterexample:
  "\<not> isl (calculateHistogram (Some [0, 0, 0, 255, 0, 0, 0, 255])
            (snd (projr (calculateHistogram (Some [0, 0, 0, 255]) newHistogramCache)))) \<and>
   sum_r (the (fst (projr
     (calculateHistogram (Some [0, 0, 0, 255, 0, 0, 0, 255])
        (snd (projr (calculateHistogram (Some [0, 0, 0, 255]) newHistogramCache)))))))
     \<noteq> 2 * 1 \<and>
   sum_list (h_red (computeHistogram [0, 0, 0, 0])) \<noteq> 1 * 1"
proof -
  have "length [0, 0, 0, 255 :: 8 word] = 4 * 1" by simp
  from calculateHistogram_miss[OF this, of newHistogramCache]
  obtain h where h: "calculateHistogram (Some [0, 0, 0, 255]) newHistogramCache
        = Inr (Some h, newHistogramCache \<lparr> stat_calls := stat_calls newHistogramCache + 1,
                                    cachedHistogramData := Some h,
                                    lastImageDataHash := Some (calculateDataHash [0, 0, 0, 255]) \<rparr>)"
      "sum_r h = 1"
    by (auto simp: newHistogramCache_def)
  have same: "calculateDataHash [0, 0, 0, 255, 0, 0, 0, 255] = calculateDataHash [0, 0, 0, 255]"
    by (simp add: hash_one_pixel hash_two_pixels)
  have "calculateHistogram (Some [0, 0, 0, 255, 0, 0, 0, 255])
          (snd (projr (calculateHistogram (Some [0, 0, 0, 255]) newHistogramCache)))
        = Inr (Some h, (snd (projr (calculateHistogram (Some [0, 0, 0, 255]) newHistogramCache)))
                         \<lparr> stat_calls := stat_calls (snd (projr (calculateHistogram (Some [0, 0, 0, 255]) newHistogramCache))) + 1 \<rparr>)"
    by (rule calculateHistogram_hit) (simp_all add: h(1) same)
  moreover have "sum_list (h_red (computeHistogram [0, 0, 0, 0])) \<noteq> 1 * 1"
    by (simp add: computeHistogram_def sum_list_replicate)
  ultimately show ?thesis using h(2) by simp
qed

section \<open>Properties of colour replacement\<close>

lemma findColorsInRange_canvas [simp]:
  "st_canvas (snd (findColorsInRange s e tol st)) = st_canvas st"
  by (simp add: findColorsInRange_def Let_def split: option.splits)

lemma findColorsInRange_other_fields [simp]:
  "colorReplaceHistory (snd (findColorsInRange s e tol st)) = colorReplaceHistory st"
  "currentEditingIndex (snd (findColorsInRange s e tol st)) = currentEditingIndex st"
  by (simp_all add: findColorsInRange_def Let_def split: option.splits)







lemma putImageData_same:
  assumes "canvasOK c" and "cv_width img = cv_width c" and "cv_height img = cv_height c"
    and "length (cv_data img) = length (cv_data c)"
  shows "putImageData img c = c \<lparr> cv_data := cv_data img \<rparr>"
proof -
  let ?w = "cv_width c" and ?h = "cv_height c"
  have len: "length (cv_data c) = 4 * (?w * ?h)" using assms(1) by (simp add: canvasOK_def)
  have inside: "(j div 4) mod ?w < ?w \<and> (j div 4) div ?w < ?h \<and>
                ((j div 4) div ?w * ?w + (j div 4) mod ?w) * 4 + j mod 4 = j"
    if "j < length (cv_data c)" for j
  proof -
    from that len have p: "j div 4 < ?w * ?h" by simp
    then have w: "0 < ?w" by (cases "?w") auto
    from p have "(j div 4) div ?w < ?h"
      by (simp add: less_mult_imp_div_less mult.commute)
    with w show ?thesis by simp
  qed
  have "map (\<lambda>j. let p = j div 4; x = p mod ?w; y = p div ?w
                 in if x < cv_width img \<and> y < cv_height img \<and> y < ?h
                    then cv_data img ! ((y * cv_width img + x) * 4 + j mod 4)
                    else cv_data c ! j)
            [0 ..< length (cv_data c)] = cv_data img"
    by (rule nth_equalityI) (simp_all add: assms(2,3,4) Let_def inside)
  then show ?thesis by (simp add: putImageData_def)
qed

lemma length_writePixel [simp]: "length (writePixel f p d) = length d"
  by (simp add: writePixel_def Let_def)

lemma length_fold_writePixel [simp]: "length (fold (writePixel f) ps d) = length d"
  by (induction ps arbitrary: d) simp_all

lemma length_fold_replaceColor [simp]:
  "length (fst (fold (replaceColor s e ts te ratio) cs acc)) = length (fst acc)"
  by (induction cs arbitrary: acc) (simp_all add: replaceColor_def Let_def)

lemma applyColorReplaceToImageData_shape:
  "cv_width (fst (applyColorReplaceToImageData img cs s e ts te ratio)) = cv_width img"
  "cv_height (fst (applyColorReplaceToImageData img cs s e ts te ratio)) = cv_height img"
  "length (cv_data (fst (applyColorReplaceToImageData img cs s e ts te ratio)))
     = length (cv_data img)"
  by (simp_all add: applyColorReplaceToImageData_def Let_def)

lemma canvasOK_applied:
  "canvasOK img \<Longrightarrow> canvasOK (fst (applyColorReplaceToImageData img cs s e ts te ratio))"
  by (simp add: canvasOK_def applyColorReplaceToImageData_shape)

lemma last_arrayAssign:
  "length xs \<le> Suc i \<Longrightarrow> last (arrayAssign xs i v) = Some v"
proof (cases "i < length xs")
  case True
  assume "length xs \<le> Suc i"
  with True have "length xs = Suc i" "xs \<noteq> []" by auto
  then show ?thesis by (simp add: arrayAssign_def last_list_update)
next
  case False
  then show ?thesis by (simp add: arrayAssign_def)
qed

lemma arrayAssign_nonempty [simp]: "arrayAssign xs i v \<noteq> []"
  by (auto simp: arrayAssign_def)

lemma apply_then_undo:
  assumes ok: "canvasOK (st_canvas st)"
    and res: "applyColorReplaceEffect now st = (Some n, st1)"
    and idx: "currentEditingIndex st < 0 \<or>
              int (length (colorReplaceHistory st)) - 1 \<le> currentEditingIndex st"
  shows "\<exists>st2 entry. undoLastColorReplace st1 = Inr st2 \<and>
           st_canvas st2 = st_canvas st \<and>
           last (colorReplaceHistory st1) = Some entry \<and>
           cr_replacedPixels entry = n \<and> cr_originalImageData entry = st_canvas st \<and>
           colorReplaceHistory st2 = butlast (colorReplaceHistory st1) \<and>
           (currentEditingIndex st < 0 \<longrightarrow> colorReplaceHistory st2 = colorReplaceHistory st)"
proof -
  define found where "found = findColorsInRange (colorRangeStart st) (colorRangeEnd st)
                                (colorTolerance st) st"
  define applied where "applied = applyColorReplaceToImageData (st_canvas st) (fst found)
       (colorRangeStart st) (colorRangeEnd st) (targetColorStart st) (targetColorEnd st)
       (real_of_int (mixRatio st) / 100)"
  define entry where "entry =
      \<lparr> cr_id = now, cr_startColor = colorRangeStart st, cr_endColor = colorRangeEnd st,
        cr_targetStartColor = targetColorStart st, cr_targetEndColor = targetColorEnd st,
        cr_mixRatio = mixRatio st, cr_tolerance = colorTolerance st,
        cr_replacedPixels = snd applied, cr_originalImageData = st_canvas st,
        cr_colorsInRange = map (\<lambda>color. (ci_hex color, length (ci_positions color))) (fst found) \<rparr>"
  have put: "putImageData (fst applied) (st_canvas st) = fst applied"
    using putImageData_same[OF ok, of "fst applied"]
    by (simp add: applied_def applyColorReplaceToImageData_shape
          applyColorReplaceToImageData_def Let_def)
  have raw: "applyColorReplaceEffect now st =
      (if fst found = [] then (None, snd found)
       else (Some (snd applied),
             clearColorCache
               (if 0 \<le> currentEditingIndex st
                then (snd found) \<lparr> st_canvas := fst applied,
                       colorReplaceHistory :=
                         arrayAssign (colorReplaceHistory st) (nat (currentEditingIndex st)) entry,
                       currentEditingIndex := - 1 \<rparr>
                else (snd found) \<lparr> st_canvas := fst applied,
                       colorReplaceHistory := colorReplaceHistory st @ [Some entry] \<rparr>)))"
    using put
    unfolding applyColorReplaceEffect_def Let_def found_def applied_def entry_def
    by (simp add: getImageData_def)
  from res raw have nonempty: "fst found \<noteq> []"
    by (auto split: if_splits)
  with res raw have n: "n = snd applied"
    and canvas1: "st_canvas st1 = fst applied"
    and hist1: "colorReplaceHistory st1 =
        (if currentEditingIndex st \<ge> 0
         then arrayAssign (colorReplaceHistory st) (nat (currentEditingIndex st)) entry
         else colorReplaceHistory st @ [Some entry])"
    by (auto simp: clearColorCache_def split: if_splits)
  have last1: "last (colorReplaceHistory st1) = Some entry"
    using idx by (auto simp: hist1 last_arrayAssign)
  have ne1: "colorReplaceHistory st1 \<noteq> []" by (simp add: hist1)
  have ok1: "canvasOK (fst applied)"
    unfolding applied_def by (rule canvasOK_applied[OF ok])
  have back1: "putImageData (st_canvas st) (fst applied) = st_canvas st"
    using putImageData_same[OF ok1, of "st_canvas st"]
    by (simp add: applied_def applyColorReplaceToImageData_shape
          applyColorReplaceToImageData_def Let_def)
  have undo: "undoLastColorReplace st1 =
      Inr (clearColorCache (st1 \<lparr> st_canvas := st_canvas st,
                                 colorReplaceHistory := butlast (colorReplaceHistory st1) \<rparr>))"
    using ne1 last1 back1 by (simp add: undoLastColorReplace_def canvas1 entry_def)
  show ?thesis
    using undo last1 n hist1
    by (auto simp: clearColorCache_def entry_def)
qed

lemma applyColorReplaceEffect_ok:
  assumes "canvasOK (st_canvas st)"
  shows "applyColorReplaceEffect now st =
      (let found = findColorsInRange (colorRangeStart st) (colorRangeEnd st) (colorTolerance st) st;
           applied = applyColorReplaceToImageData (st_canvas st) (fst found)
                       (colorRangeStart st) (colorRangeEnd st) (targetColorStart st)
                       (targetColorEnd st) (real_of_int (mixRatio st) / 100);
           entry = \<lparr> cr_id = now, cr_startColor = colorRangeStart st,
                     cr_endColor = colorRangeEnd st,
                     cr_targetStartColor = targetColorStart st,
                     cr_targetEndColor = targetColorEnd st,
                     cr_mixRatio = mixRatio st, cr_tolerance = colorTolerance st,
                     cr_replacedPixels = snd applied, cr_originalImageData = st_canvas st,
                     cr_colorsInRange =
                       map (\<lambda>color. (ci_hex color, length (ci_positions color))) (fst found) \<rparr>
       in if fst found = [] then (None, snd found)
          else (Some (snd applied),
                (if 0 \<le> currentEditingIndex st
                 then (snd found) \<lparr> st_canvas := fst applied,
                        colorReplaceHistory :=
                          arrayAssign (colorReplaceHistory st) (nat (currentEditingIndex st)) entry,
                        currentEditingIndex := - 1, colorCache := [] \<rparr>
                 else (snd found) \<lparr> st_canvas := fst applied,
                        colorReplaceHistory := colorReplaceHistory st @ [Some entry],
                        colorCache := [] \<rparr>)))"
proof -
  have "putImageData (fst (applyColorReplaceToImageData (st_canvas st) cs s e ts te ratio))
          (st_canvas st)
        = fst (applyColorReplaceToImageData (st_canvas st) cs s e ts te ratio)"
    for cs s e ts te ratio
    using putImageData_same[OF assms,
            of "fst (applyColorReplaceToImageData (st_canvas st) cs s e ts te ratio)"]
    by (simp add: applyColorReplaceToImageData_shape applyColorReplaceToImageData_def Let_def)
  then show ?thesis
    unfolding applyColorReplaceEffect_def Let_def
    by (simp add: getImageData_def clearColorCache_def)
qed

lemmas hex_evals = hexToRgb_def hexDigitValue_def rgbToHex_def hexDigitUpper_def
lemmas scan_evals = scanCanvas_def getImageData_def pixelInRange_degenerate
        spec_euclid_def recordPosition_def map_has_def
lemmas replace_evals = applyColorReplaceToImageData_def replaceColor_def
        calculateColorPosition_def startToEndOf_def lengthSquaredOf_def interpolateColor_def
        mixColors_def mathRound_def writePixel_def clampToByte_def

lemma onePixel_ok: "canvasOK \<lparr> cv_width = 1, cv_height = 1, cv_data = [r, g, b, a] \<rparr>"
  by (simp add: canvasOK_def)

lemma step1:
  "applyColorReplaceEffect 1 session0 =
     (Some 1,
      session0 \<lparr> st_canvas := \<lparr> cv_width = 1, cv_height = 1, cv_data = [0, 255, 0, 255] \<rparr>,
        colorReplaceHistory :=
          [Some \<lparr> cr_id = 1, cr_startColor = ''#ff0000'', cr_endColor = ''#ff0000'',
                  cr_targetStartColor = ''#00ff00'', cr_targetEndColor = ''#00ff00'',
                  cr_mixRatio = 100, cr_tolerance = 0, cr_replacedPixels = 1,
                  cr_originalImageData =
                    \<lparr> cv_width = 1, cv_height = 1, cv_data = [255, 0, 0, 255] \<rparr>,
                  cr_colorsInRange = [(''#FF0000'', 1)] \<rparr>] \<rparr>)"
proof -
  have ok: "canvasOK (st_canvas session0)" by (simp add: session0_def canvasOK_def)
  show ?thesis
    unfolding applyColorReplaceEffect_ok[OF ok]
    by (simp add: session0_def findColorsInRange_def cacheKeyOf_def hex_evals scan_evals
          replace_evals Let_def)
qed

lemma session1_eq:
  "session1 =
     \<lparr> st_canvas = \<lparr> cv_width = 1, cv_height = 1, cv_data = [0, 255, 0, 255] \<rparr>,
       colorCache = [],
       colorReplaceHistory =
          [Some \<lparr> cr_id = 1, cr_startColor = ''#ff0000'', cr_endColor = ''#ff0000'',
                  cr_targetStartColor = ''#00ff00'', cr_targetEndColor = ''#00ff00'',
                  cr_mixRatio = 100, cr_tolerance = 0, cr_replacedPixels = 1,
                  cr_originalImageData =
                    \<lparr> cv_width = 1, cv_height = 1, cv_data = [255, 0, 0, 255] \<rparr>,
                  cr_colorsInRange = [(''#FF0000'', 1)] \<rparr>],
       currentEditingIndex = - 1,
       colorRangeStart = ''#00ff00'', colorRangeEnd = ''#00ff00'',
       targetColorStart = ''#0000ff'', targetColorEnd = ''#0000ff'',
       mixRatio = 100, colorTolerance = 0 \<rparr>"
  unfolding session1_def step1 by (simp add: session0_def)

lemma step2:
  "applyColorReplaceEffect 2 session1 =
     (Some 1,
      session1 \<lparr> st_canvas := \<lparr> cv_width = 1, cv_height = 1, cv_data = [0, 0, 255, 255] \<rparr>,
        colorReplaceHistory :=
          [Some \<lparr> cr_id = 1, cr_startColor = ''#ff0000'', cr_endColor = ''#ff0000'',
                  cr_targetStartColor = ''#00ff00'', cr_targetEndColor = ''#00ff00'',
                  cr_mixRatio = 100, cr_tolerance = 0, cr_replacedPixels = 1,
                  cr_originalImageData =
                    \<lparr> cv_width = 1, cv_height = 1, cv_data = [255, 0, 0, 255] \<rparr>,
                  cr_colorsInRange = [(''#FF0000'', 1)] \<rparr>,
           Some \<lparr> cr_id = 2, cr_startColor = ''#00ff00'', cr_endColor = ''#00ff00'',
                  cr_targetStartColor = ''#0000ff'', cr_targetEndColor = ''#0000ff'',
                  cr_mixRatio = 100, cr_tolerance = 0, cr_replacedPixels = 1,
                  cr_originalImageData =
                    \<lparr> cv_width = 1, cv_height = 1, cv_data = [0, 255, 0, 255] \<rparr>,
                  cr_colorsInRange = [(''#00FF00'', 1)] \<rparr>] \<rparr>)"
proof -
  have ok: "canvasOK (st_canvas session1)"
    by (simp add: session1_eq canvasOK_def)
  show ?thesis
    unfolding applyColorReplaceEffect_ok[OF ok]
    unfolding session1_eq
    by (simp add: findColorsInRange_def cacheKeyOf_def
          hex_evals scan_evals replace_evals Let_def)
qed

lemma session2_eq:
  "session2 =
     \<lparr> st_canvas = \<lparr> cv_width = 1, cv_height = 1, cv_data = [0, 0, 255, 255] \<rparr>,
       colorCache = [],
       colorReplaceHistory =
          [Some \<lparr> cr_id = 1, cr_startColor = ''#ff0000'', cr_endColor = ''#ff0000'',
                  cr_targetStartColor = ''#00ff00'', cr_targetEndColor = ''#00ff00'',
                  cr_mixRatio = 100, cr_tolerance = 0, cr_replacedPixels = 1,
                  cr_originalImageData =
                    \<lparr> cv_width = 1, cv_height = 1, cv_data = [255, 0, 0, 255] \<rparr>,
                  cr_colorsInRange = [(''#FF0000'', 1)] \<rparr>,
           Some \<lparr> cr_id = 2, cr_startColor = ''#00ff00'', cr_endColor = ''#00ff00'',
                  cr_targetStartColor = ''#0000ff'', cr_targetEndColor = ''#0000ff'',
                  cr_mixRatio = 100, cr_tolerance = 0, cr_replacedPixels = 1,
                  cr_originalImageData =
                    \<lparr> cv_width = 1, cv_height = 1, cv_data = [0, 255, 0, 255] \<rparr>,
                  cr_colorsInRange = [(''#00FF00'', 1)] \<rparr>],
       currentEditingIndex = 0,
       colorRangeStart = ''#0000ff'', colorRangeEnd = ''#0000ff'',
       targetColorStart = ''#ffffff'', targetColorEnd = ''#ffffff'',
       mixRatio = 100, colorTolerance = 0 \<rparr>"
  unfolding session2_def step2 unfolding session1_eq by (simp add: editColorReplace_def)

lemma step3:
  "applyColorReplaceEffect 3 session2 =
     (Some 1,
      session2 \<lparr> st_canvas := \<lparr> cv_width = 1, cv_height = 1, cv_data = [255, 255, 255, 255] \<rparr>,
        colorReplaceHistory :=
          [Some \<lparr> cr_id = 3, cr_startColor = ''#0000ff'', cr_endColor = ''#0000ff'',
                  cr_targetStartColor = ''#ffffff'', cr_targetEndColor = ''#ffffff'',
                  cr_mixRatio = 100, cr_tolerance = 0, cr_replacedPixels = 1,
                  cr_originalImageData =
                    \<lparr> cv_width = 1, cv_height = 1, cv_data = [0, 0, 255, 255] \<rparr>,
                  cr_colorsInRange = [(''#0000FF'', 1)] \<rparr>,
           Some \<lparr> cr_id = 2, cr_startColor = ''#00ff00'', cr_endColor = ''#00ff00'',
                  cr_targetStartColor = ''#0000ff'', cr_targetEndColor = ''#0000ff'',
                  cr_mixRatio = 100, cr_tolerance = 0, cr_replacedPixels = 1,
                  cr_originalImageData =
                    \<lparr> cv_width = 1, cv_height = 1, cv_data = [0, 255, 0, 255] \<rparr>,
                  cr_colorsInRange = [(''#00FF00'', 1)] \<rparr>],
        currentEditingIndex := - 1 \<rparr>)"
proof -
  have ok: "canvasOK (st_canvas session2)"
    by (simp add: session2_eq canvasOK_def)
  show ?thesis
    unfolding applyColorReplaceEffect_ok[OF ok]
    unfolding session2_eq
    by (simp add: findColorsInRange_def cacheKeyOf_def
          hex_evals scan_evals replace_evals Let_def arrayAssign_def)
qed

lemma undo3:
  "undoLastColorReplace (snd (applyColorReplaceEffect 3 session2)) =
     Inr ((snd (applyColorReplaceEffect 3 session2))
            \<lparr> st_canvas := \<lparr> cv_width = 1, cv_height = 1, cv_data = [0, 255, 0, 255] \<rparr>,
              colorReplaceHistory := butlast (colorReplaceHistory (snd (applyColorReplaceEffect 3 session2))) \<rparr>)"
proof -
  have "putImageData \<lparr> cv_width = 1, cv_height = 1, cv_data = [0, 255, 0, 255] \<rparr>
          \<lparr> cv_width = 1, cv_height = 1, cv_data = [255, 255, 255, 255] \<rparr>
        = \<lparr> cv_width = 1, cv_height = 1, cv_data = [0, 255, 0, 255] \<rparr>"
    using putImageData_same[OF onePixel_ok,
            of "\<lparr> cv_width = 1, cv_height = 1, cv_data = [0, 255, 0, 255] \<rparr>" 255 255 255 255]
    by simp
  then show ?thesis
    unfolding step3 unfolding session2_eq
    by (simp add: undoLastColorReplace_def clearColorCache_def)
qed

text \<open>
  Claim C4 as the code has it. On a well-formed canvas, when a replacement is applied
  while no history entry is being edited (or the entry being edited is the last one, or
  lies beyond the end), and it reports a changed count \<open>n > 0\<close>, then undo succeeds,
  the canvas is exactly the image before the replacement, and the entry that undo
  removes is the entry of this replacement (it is the last one, records \<open>n\<close> and holds
  that image). When no entry was being edited the history is the one before the
  replacement.
\<close>

theorem undo_restores_pre_apply_snapshot:
  assumes "canvasOK (st_canvas st)"
    and "applyColorReplaceEffect now st = (Some n, st1)" and "0 < n"
    and "currentEditingIndex st < 0 \<or>
         int (length (colorReplaceHistory st)) - 1 \<le> currentEditingIndex st"
  shows "\<exists>st2 entry. undoLastColorReplace st1 = Inr st2 \<and>
           st_canvas st2 = st_canvas st \<and>
           last (colorReplaceHistory st1) = Some entry \<and>
           cr_replacedPixels entry = n \<and> cr_originalImageData entry = st_canvas st \<and>
           colorReplaceHistory st2 = butlast (colorReplaceHistory st1) \<and>
           (currentEditingIndex st < 0 \<longrightarrow> colorReplaceHistory st2 = colorReplaceHistory st)"
  using apply_then_undo[OF assms(1,2,4)] .

theorem undo_restores_witness:
  "canvasOK (st_canvas session0) \<and> currentEditingIndex session0 < 0 \<and>
   fst (applyColorReplaceEffect 1 session0) = Some 1 \<and>
   cv_data (st_canvas (snd (applyColorReplaceEffect 1 session0))) = [0, 255, 0, 255] \<and>
   (\<exists>st2. undoLastColorReplace (snd (applyColorReplaceEffect 1 session0)) = Inr st2 \<and>
      st_canvas st2 = st_canvas session0 \<and>
      colorReplaceHistory st2 = colorReplaceHistory session0)"
proof -
  have ok: "canvasOK (st_canvas session0)" by (simp add: session0_def canvasOK_def)
  have idx: "currentEditingIndex session0 < 0 \<or>
         int (length (colorReplaceHistory session0)) - 1 \<le> currentEditingIndex session0"
    by (simp add: session0_def)
  have res: "applyColorReplaceEffect 1 session0
               = (Some 1, snd (applyColorReplaceEffect 1 session0))"
    by (simp add: step1)
  have pos: "0 < (1::nat)" by simp
  have data: "cv_data (st_canvas (snd (applyColorReplaceEffect 1 session0))) = [0, 255, 0, 255]"
    by (simp add: step1)
  have first: "fst (applyColorReplaceEffect 1 session0) = Some 1"
    by (simp add: step1)
  from undo_restores_pre_apply_snapshot[OF ok res pos idx] ok data first
  show ?thesis by (auto simp: session0_def)
qed

text \<open>
  The claim as stated fails in edit mode. In \<^const>\<open>session2\<close> the first of two history
  entries is being edited and the canvas holds a blue pixel. The replacement changes one
  pixel and overwrites history slot 0; undo then restores the snapshot of the last entry
  (the green pixel from before the second replacement) and removes that entry, while
  the entry of the replacement just applied stays in the history.
\<close>

theorem undo_after_edit_counterexample:
  "currentEditingIndex session2 = 0 \<and>
   cv_data (st_canvas session2) = [0, 0, 255, 255] \<and>
   fst (applyColorReplaceEffect 3 session2) = Some 1 \<and>
   \<not> isl (undoLastColorReplace (snd (applyColorReplaceEffect 3 session2))) \<and>
   cv_data (st_canvas (projr (undoLastColorReplace (snd (applyColorReplaceEffect 3 session2)))))
     = [0, 255, 0, 255] \<and>
   st_canvas (projr (undoLastColorReplace (snd (applyColorReplaceEffect 3 session2))))
     \<noteq> st_canvas session2 \<and>
   map (map_option cr_id)
     (colorReplaceHistory (projr (undoLastColorReplace (snd (applyColorReplaceEffect 3 session2)))))
     = [Some 3]"
proof -
  have a: "currentEditingIndex session2 = 0 \<and> cv_data (st_canvas session2) = [0, 0, 255, 255]"
    by (simp add: session2_eq)
  have b: "fst (applyColorReplaceEffect 3 session2) = Some 1"
    by (simp add: step3)
  have c: "map (map_option cr_id)
             (butlast (colorReplaceHistory (snd (applyColorReplaceEffect 3 session2)))) = [Some 3]"
    unfolding step3 by simp
  have d: "st_canvas session2 \<noteq> \<lparr> cv_width = 1, cv_height = 1, cv_data = [0, 255, 0, 255] \<rparr>"
    by (simp add: session2_eq)
  show ?thesis
    unfolding undo3 using a b c d by simp
qed


section \<open>Properties of the colour-grading pass\<close>

lemma jmin_Fin [simp]: "jmin (Fin a) (Fin b) = Fin (min a b)"
  by (simp add: jmin_def min_def)

lemma jmax_Fin [simp]: "jmax (Fin a) (Fin b) = Fin (max a b)"
  by (simp add: jmax_def max_def)

lemma jsub_Fin [simp]: "jsub (Fin a) (Fin b) = Fin (a - b)"
  by (simp add: jsub_def)

lemma jgt_Fin [simp]: "jgt (Fin a) (Fin b) = (b < a)"
  by (simp add: jgt_def)

























lemma jne_same [simp]: "jne (Fin a) (Fin a) = False"
  by (simp add: jne_def)

lemma fast_path:
  assumes "allIdentity els st"
  shows "nothingToDo (prepare els st)"
proof -
  let ?p = "prepare els st"
  from assms have "s_bright st = None \<or> s_bright st = Some (Fin 1)"
    by (simp add: allIdentity_def)
  then have 1: "\<not> needBrightness ?p"
    by (auto simp: needBrightness_def prepare_def Let_def orDefault_def jtruthy_def)
  from assms have "el_contrast els = Some 0" by (simp add: allIdentity_def)
  then have 2: "\<not> needContrast ?p"
    by (simp add: needContrast_def prepare_def Let_def fromParse_def)
  from assms have "el_saturation els = Some 100" by (simp add: allIdentity_def)
  then have 3: "\<not> needSaturation ?p"
    by (simp add: needSaturation_def prepare_def Let_def fromParse_def)
  from assms have "el_temperature els = None \<or> el_temperature els = Some (Some 0)"
    by (simp add: allIdentity_def)
  then have 4: "\<not> needTemperature ?p"
    by (auto simp: needTemperature_def prepare_def Let_def)
  from assms have "el_tint els = None \<or> el_tint els = Some (Some 0)"
    by (simp add: allIdentity_def)
  then have 5: "\<not> needTint ?p"
    by (auto simp: needTint_def prepare_def Let_def)
  from assms have "s_exp_shift st = None \<or> s_exp_shift st = Some (Fin 0)"
    by (simp add: allIdentity_def)
  then have 6: "\<not> needExposure ?p"
    by (auto simp: needExposure_def prepare_def Let_def orDefault_def jtruthy_def)
  from assms have "s_user_mul st = None" by (simp add: allIdentity_def)
  then have 7: "\<not> useUserMul ?p"
    by (simp add: prepare_def Let_def)
  from assms have "s_shadows st = Some (Fin 0) \<or> s_shadows st = None \<and> el_shadows els = Some 0"
    by (simp add: allIdentity_def)
  then have 8: "\<not> needShadows ?p"
    by (auto simp: needShadows_def prepare_def Let_def fromParse_def)
  from assms have "s_highlights st = Some (Fin 0) \<or>
                   s_highlights st = None \<and> el_highlights els = Some 0"
    by (simp add: allIdentity_def)
  then have 9: "\<not> needHighlights ?p"
    by (auto simp: needHighlights_def prepare_def Let_def fromParse_def)
  from assms have "s_whites st = Some (Fin 100) \<or> s_whites st = None \<and> el_whites els = Some 100"
    by (simp add: allIdentity_def)
  then have 10: "\<not> needWhites ?p"
    by (auto simp: needWhites_def prepare_def Let_def fromParse_def)
  from 1 2 3 4 5 6 7 8 9 10 show ?thesis
    by (simp add: nothingToDo_def)
qed




text \<open>
  Claim C1. With every stage at its identity value (brightness multiplier 1, contrast 0,
  saturation 100, temperature 0, tint 0, exposure 0, shadows 0, highlights 0, whites 100,
  no white-balance vector) the function finds nothing to do, skips the pixel loop and
  leaves the buffer exactly as it was.
\<close>

theorem identity_settings_skip_pixel_loop:
  assumes "allIdentity els st"
  shows "nothingToDo (prepare els st) \<and> applyColorAdjustments els st data = data"
  using fast_path[OF assms] by (simp add: applyColorAdjustments_def Let_def)

theorem identity_settings_witness:
  "allIdentity neutralElements neutralSettings \<and>
   applyColorAdjustments neutralElements neutralSettings [12, 34, 56, 78] = [12, 34, 56, 78]"
proof -
  have a: "allIdentity neutralElements neutralSettings"
    by (simp add: allIdentity_def neutralElements_def neutralSettings_def)
  from identity_settings_skip_pixel_loop[OF a, of "[12, 34, 56, 78]"] a
  show ?thesis by simp
qed




section \<open>Alpha bytes are left alone\<close>

subsection \<open>Stores at integer indices\<close>

lemma length_storeAt [simp]: "length (storeAt i v d) = length d"
  by (simp add: storeAt_def)





subsection \<open>Gaussian filter\<close>

lemma length_blurAt [simp]: "length (blurAt src kern len w ix yx dst) = length dst"
  by (simp add: blurAt_def Let_def split: prod.splits)


lemma fold_blurAt_length [simp]:
  "length (fold (blurAt src kern len w ix) cs dst) = length dst"
  by (induction cs arbitrary: dst) simp_all






subsection \<open>Median filter\<close>








subsection \<open>Colour replacement\<close>











end
